theory Spec2Isabelle
  imports Main "HOL-Library.AList"
begin

section \<open>Data model\<close>

text \<open>
  The persistent records of the curation platform, as the route handlers read and write
  them through the Prisma client. Only the columns that the modelled handlers touch are
  kept. Identifiers of works are strings (they are concatenated into the visit keys of
  the lineage traversal and compared with slugs); identifiers generated by the database
  for edges, promotion events and provenance records are opaque, and the model numbers
  the rows of a table in insertion order. Timestamps are numbers supplied by the caller
  of a handler (the value of \<^verbatim>\<open>new Date()\<close>).
\<close>

datatype WorkStatus = JAM | PLATE | CANON

datatype EdgeType = FORK | MERGE | DERIVED

text \<open>
  A JSON value as a request body member. \<open>JUndefined\<close> is an absent member,
  \<open>JOther\<close> any array or object.
\<close>

datatype jsvalue = JUndefined | JNull | JBool bool | JNum int | JStr string | JOther

fun truthy :: "jsvalue \<Rightarrow> bool" where
  "truthy JUndefined = False"
| "truthy JNull = False"
| "truthy (JBool b) = b"
| "truthy (JNum n) = (n \<noteq> 0)"
| "truthy (JStr s) = (s \<noteq> [])"
| "truthy JOther = True"

record ctad_platform =
  platform_name :: jsvalue
  platform_version :: jsvalue
  platform_role :: string

record ctad_ai =
  involved :: bool
  platforms :: "ctad_platform list option"
  estimatedContribution :: "int option"
  o8ProvenanceId :: "nat option"
  humanOversight :: "string option"

record ctad_timestamps =
  created :: string
  modified :: "nat option"
  generated :: "jsvalue option"
  released :: "string option"

text \<open>
  The CTAD metadata document of a work. The members that no modelled handler reads or
  writes one by one (version, id, track, audio, contributors, lineage, rights) are kept
  together in \<open>ctad_other\<close>.
\<close>

record CTADMetadata =
  ai :: "ctad_ai option"
  timestamps :: ctad_timestamps
  ctad_other :: string

record Work =
  work_id :: string
  slug :: string
  title :: string
  description :: "string option"
  audioUrl :: "string option"
  status :: WorkStatus
  canonLockedAt :: "nat option"
  canonLockedByUserId :: "string option"
  ctadMetadata :: "CTADMetadata option"

record WorkEdge =
  edge_id :: nat
  fromWorkId :: string
  toWorkId :: string
  edge_type :: EdgeType

record PromotionEvent =
  event_id :: nat
  workId :: string
  fromStatus :: WorkStatus
  toStatus :: WorkStatus
  justification :: string
  signedByUserId :: string
  signedByDisplayName :: string
  createdAt :: nat

record O8Provenance =
  prov_id :: nat
  prov_workId :: string
  prov_platform :: jsvalue
  prov_platformVersion :: jsvalue
  prov_generatedAt :: nat
  prov_prompt :: jsvalue
  prov_negativePrompt :: jsvalue
  prov_parameters :: jsvalue
  prov_originalAudioUrl :: jsvalue
  prov_originalTitle :: jsvalue
  prov_creatorPlatformId :: jsvalue
  prov_creatorPlatformName :: jsvalue
  prov_signatureAlgorithm :: jsvalue
  prov_publicKey :: jsvalue
  prov_signature :: jsvalue
  prov_signedAt :: nat
  prov_verified :: bool

text \<open>The session user that \<^verbatim>\<open>requireCurator\<close> or \<^verbatim>\<open>requireCreator\<close> hands to a handler.\<close>

record User =
  user_id :: string
  user_name :: "string option"

record Store =
  works :: "Work list"
  workEdges :: "WorkEdge list"
  promotionEvents :: "PromotionEvent list"
  o8Provenances :: "O8Provenance list"

text \<open>
  The failure responses of the handlers: the spec's name of each failure, with the
  HTTP status and message of the source.
  \<^item> \<open>ValidationError\<close>: 400, a required member is missing or malformed;
  \<^item> \<open>NotFound\<close>: 404, \<^verbatim>\<open>Work not found\<close> / \<^verbatim>\<open>One or both works not found\<close>;
  \<^item> \<open>TerminalState\<close>: 400, \<^verbatim>\<open>Work cannot be promoted further (already CANON)\<close>;
  \<^item> \<open>ImmutableTarget\<close>: 403, \<^verbatim>\<open>Cannot create edges to canonized works\<close>;
  \<^item> \<open>DuplicateEdge\<close>: 409, \<^verbatim>\<open>Edge already exists between these works\<close>;
  \<^item> \<open>CanonLocked\<close>: 403, \<^verbatim>\<open>Cannot modify canonized works\<close>;
  \<^item> \<open>Conflict\<close>: 409, \<^verbatim>\<open>Provenance already exists for this work\<close>;
  \<^item> \<open>InternalError\<close>: 500, the \<^verbatim>\<open>catch\<close> branch of a handler.
\<close>

datatype error =
    ValidationError
  | NotFound
  | TerminalState
  | ImmutableTarget
  | DuplicateEdge
  | CanonLocked
  | Conflict
  | InternalError

section \<open>Store lookups and writes\<close>

text \<open>\<^verbatim>\<open>prisma.work.findFirst({ where: { OR: [{ id }, { slug: id }] } })\<close>\<close>

definition findFirst_id_or_slug :: "Work list \<Rightarrow> string \<Rightarrow> Work option" where
  "findFirst_id_or_slug ws x = find (\<lambda>w. work_id w = x \<or> slug w = x) ws"

text \<open>\<^verbatim>\<open>prisma.work.findUnique({ where: { id } })\<close>\<close>

definition findUnique_id :: "Work list \<Rightarrow> string \<Rightarrow> Work option" where
  "findUnique_id ws x = find (\<lambda>w. work_id w = x) ws"

text \<open>\<^verbatim>\<open>prisma.workEdge.findUnique({ where: { fromWorkId_toWorkId: { fromWorkId, toWorkId } } })\<close>\<close>

definition findUnique_edge :: "WorkEdge list \<Rightarrow> string \<Rightarrow> string \<Rightarrow> WorkEdge option" where
  "findUnique_edge es a b = find (\<lambda>e. fromWorkId e = a \<and> toWorkId e = b) es"

text \<open>
  A write is a partial function on the store: it returns the new store and the written
  row, or fails. \<^verbatim>\<open>prisma.work.update({ where: { id }, data })\<close> fails when no row has the
  id; the returned row is the updated one.
\<close>

definition work_update :: "string \<Rightarrow> (Work \<Rightarrow> Work) \<Rightarrow> Store \<Rightarrow> (Store \<times> Work) option" where
  "work_update i f st =
     (case findUnique_id (works st) i of
        None \<Rightarrow> None
      | Some w \<Rightarrow>
          Some (st\<lparr>works := map (\<lambda>r. if work_id r = i then f r else r) (works st)\<rparr>, f w))"

text \<open>
  \<^verbatim>\<open>prisma.promotionEvent.create({ data })\<close>: the row gets the next identifier and the
  creation time.
\<close>

definition promotionEvent_create ::
  "nat \<Rightarrow> string \<Rightarrow> WorkStatus \<Rightarrow> WorkStatus \<Rightarrow> string \<Rightarrow> string \<Rightarrow> string \<Rightarrow> Store
    \<Rightarrow> (Store \<times> PromotionEvent) option" where
  "promotionEvent_create now wid fromS toS j uid dname st =
     (let ev = \<lparr>event_id = length (promotionEvents st), workId = wid, fromStatus = fromS,
                 toStatus = toS, justification = j, signedByUserId = uid,
                 signedByDisplayName = dname, createdAt = now\<rparr>
      in Some (st\<lparr>promotionEvents := promotionEvents st @ [ev]\<rparr>, ev))"

text \<open>
  The Work Store as the promotion handler meets it. It performs every write, or it
  fails one write of the request (a storage fault: a lost connection, a violated
  constraint): \<open>FailsAt k\<close> is the store that fails write number \<open>k\<close> of the request,
  counted from 0. A failed write throws and leaves the table as it was.
\<close>

datatype storage = Healthy | FailsAt nat

definition attempt ::
  "storage \<Rightarrow> nat \<Rightarrow> (Store \<Rightarrow> (Store \<times> 'a) option) \<Rightarrow> Store \<Rightarrow> (Store \<times> 'a) option" where
  "attempt sto k write st = (if sto = FailsAt k then None else write st)"

text \<open>
  \<^verbatim>\<open>prisma.$transaction([a, b])\<close>: the writes run in order on the store; when one of them
  fails nothing is kept, also not a write that was made before it.
\<close>

definition transaction2 ::
  "(Store \<Rightarrow> (Store \<times> 'a) option) \<Rightarrow> (Store \<Rightarrow> (Store \<times> 'b) option) \<Rightarrow> Store
    \<Rightarrow> (Store \<times> 'a \<times> 'b) option" where
  "transaction2 a b st =
     (case a st of
        None \<Rightarrow> None
      | Some (st1, ra) \<Rightarrow>
          (case b st1 of
             None \<Rightarrow> None
           | Some (st2, rb) \<Rightarrow> Some (st2, ra, rb)))"

section \<open>Strings\<close>

text \<open>
  \<^verbatim>\<open>String.prototype.trim\<close> on strings of 8-bit code units: the white space and line
  terminators below U+0100 are TAB, LF, VT, FF, CR, SPACE and NBSP.
\<close>

definition is_space :: "char \<Rightarrow> bool" where
  "is_space c = (of_char c \<in> {9, 10, 11, 12, 13, 32, 160 :: nat})"

definition trim :: "string \<Rightarrow> string" where
  "trim s = rev (dropWhile is_space (rev (dropWhile is_space s)))"

section \<open>Promotion engine\<close>

text \<open>The table \<^verbatim>\<open>VALID_PROMOTIONS\<close>.\<close>

fun VALID_PROMOTIONS :: "WorkStatus \<Rightarrow> WorkStatus option" where
  "VALID_PROMOTIONS JAM = Some PLATE"
| "VALID_PROMOTIONS PLATE = Some CANON"
| "VALID_PROMOTIONS CANON = None"

text \<open>
  The guard
  \<^verbatim>\<open>!justification || typeof justification !== 'string' || justification.trim().length < 10\<close>,
  negated.
\<close>

fun justification_ok :: "jsvalue \<Rightarrow> bool" where
  "justification_ok (JStr s) = (truthy (JStr s) \<and> \<not> length (trim s) < 10)"
| "justification_ok _ = False"

text \<open>The string behind a value that has passed the guard.\<close>

fun js_string :: "jsvalue \<Rightarrow> string" where
  "js_string (JStr s) = s"
| "js_string _ = []"

record promote_result =
  res_work :: Work
  res_promotionEvent :: PromotionEvent

text \<open>
  The \<^verbatim>\<open>data\<close> of the work update inside the promotion transaction: the new status, and
  the lock columns when the new status is CANON.
\<close>

definition promote_data :: "nat \<Rightarrow> User \<Rightarrow> WorkStatus \<Rightarrow> Work \<Rightarrow> Work" where
  "promote_data now user nextStatus w =
     (if nextStatus = CANON
      then w\<lparr>status := nextStatus, canonLockedAt := Some now,
             canonLockedByUserId := Some (user_id user)\<rparr>
      else w\<lparr>status := nextStatus\<rparr>)"

text \<open>\<^verbatim>\<open>authResult.user.name || 'Anonymous Curator'\<close>\<close>

definition display_name :: "User \<Rightarrow> string" where
  "display_name user =
     (case user_name user of
        None \<Rightarrow> ''Anonymous Curator''
      | Some n \<Rightarrow> if n = [] then ''Anonymous Curator'' else n)"

text \<open>
  The handler \<^verbatim>\<open>POST /api/works/[id]/promote\<close> after \<^verbatim>\<open>requireCurator\<close> has let the
  user through. The body is \<open>None\<close> when \<^verbatim>\<open>request.json()\<close> throws, otherwise the value of
  its \<^verbatim>\<open>justification\<close> member. The event insert is write 0 of the request and the work
  update write 1; when the transaction throws, the \<^verbatim>\<open>catch\<close> branch answers 500. The
  webhook dispatch after the commit goes to an external notifier and writes none of the
  tables modelled here.
\<close>

definition promote ::
  "storage \<Rightarrow> nat \<Rightarrow> User \<Rightarrow> Store \<Rightarrow> string \<Rightarrow> jsvalue option
    \<Rightarrow> Store \<times> (error + promote_result)" where
  "promote sto now user st i body =
     (case body of
        None \<Rightarrow> (st, Inl InternalError)
      | Some j \<Rightarrow>
          if \<not> justification_ok j then (st, Inl ValidationError)
          else
            (case findFirst_id_or_slug (works st) i of
               None \<Rightarrow> (st, Inl NotFound)
             | Some work \<Rightarrow>
                 (case VALID_PROMOTIONS (status work) of
                    None \<Rightarrow> (st, Inl TerminalState)
                  | Some nextStatus \<Rightarrow>
                      (case transaction2
                              (attempt sto 0
                                 (promotionEvent_create now (work_id work) (status work)
                                    nextStatus (trim (js_string j)) (user_id user)
                                    (display_name user)))
                              (attempt sto 1
                                 (work_update (work_id work) (promote_data now user nextStatus)))
                              st of
                         None \<Rightarrow> (st, Inl InternalError)
                       | Some (st', ev, w') \<Rightarrow>
                           (st', Inr \<lparr>res_work = w', res_promotionEvent = ev\<rparr>)))))"

section \<open>Work update\<close>

record patch_body =
  pb_title :: jsvalue
  pb_description :: jsvalue
  pb_audioUrl :: jsvalue

text \<open>
  The three conditional spreads of the update's \<^verbatim>\<open>data\<close>. Each gives the change to the
  row, or \<open>None\<close> where the source throws: \<^verbatim>\<open>.trim()\<close> on a value that is not a string, or
  a value that the client rejects for a string column.
\<close>

fun title_data :: "jsvalue \<Rightarrow> (Work \<Rightarrow> Work) option" where
  "title_data (JStr s) = Some (if truthy (JStr s) then (\<lambda>w. w\<lparr>title := trim s\<rparr>) else (\<lambda>w. w))"
| "title_data v = (if truthy v then None else Some (\<lambda>w. w))"

fun description_data :: "jsvalue \<Rightarrow> (Work \<Rightarrow> Work) option" where
  "description_data JUndefined = Some (\<lambda>w. w)"
| "description_data JNull = Some (\<lambda>w. w\<lparr>description := None\<rparr>)"
| "description_data (JStr s) =
     Some (\<lambda>w. w\<lparr>description := (if trim s = [] then None else Some (trim s))\<rparr>)"
| "description_data _ = None"

fun audioUrl_data :: "jsvalue \<Rightarrow> (Work \<Rightarrow> Work) option" where
  "audioUrl_data JUndefined = Some (\<lambda>w. w)"
| "audioUrl_data JNull = Some (\<lambda>w. w\<lparr>audioUrl := None\<rparr>)"
| "audioUrl_data (JStr s) = Some (\<lambda>w. w\<lparr>audioUrl := Some s\<rparr>)"
| "audioUrl_data _ = None"

text \<open>
  The handler \<^verbatim>\<open>PATCH /api/works/[id]\<close> after \<^verbatim>\<open>requireCreator\<close>. The body is read after
  the work has been resolved and found not to be CANON.
\<close>

definition PATCH :: "Store \<Rightarrow> string \<Rightarrow> patch_body option \<Rightarrow> Store \<times> (error + Work)" where
  "PATCH st i body =
     (case findFirst_id_or_slug (works st) i of
        None \<Rightarrow> (st, Inl NotFound)
      | Some existingWork \<Rightarrow>
          if status existingWork = CANON then (st, Inl CanonLocked)
          else
            (case body of
               None \<Rightarrow> (st, Inl InternalError)
             | Some b \<Rightarrow>
                 (case (title_data (pb_title b), description_data (pb_description b),
                        audioUrl_data (pb_audioUrl b)) of
                    (Some ft, Some fd, Some fa) \<Rightarrow>
                      (case work_update (work_id existingWork) (fa \<circ> fd \<circ> ft) st of
                         None \<Rightarrow> (st, Inl InternalError)
                       | Some (st', w') \<Rightarrow> (st', Inr w'))
                  | _ \<Rightarrow> (st, Inl InternalError))))"

section \<open>Provenance\<close>

record provenance_body =
  platform :: jsvalue
  platformVersion :: jsvalue
  generatedAt :: jsvalue
  prompt :: jsvalue
  negativePrompt :: jsvalue
  parameters :: jsvalue
  originalAudioUrl :: jsvalue
  originalTitle :: jsvalue
  creatorPlatformId :: jsvalue
  creatorPlatformName :: jsvalue
  signature :: jsvalue
  publicKey :: jsvalue
  signedAt :: jsvalue
  signatureAlgorithm :: jsvalue

text \<open>\<^verbatim>\<open>x || null\<close>\<close>

definition or_null :: "jsvalue \<Rightarrow> jsvalue" where
  "or_null v = (if truthy v then v else JNull)"

text \<open>
  The CTAD document that the provenance handler writes back: the \<^verbatim>\<open>ai\<close> member marked as
  involved, linked to the provenance row and extended by the generating platform, and
  the \<^verbatim>\<open>generated\<close> and \<^verbatim>\<open>modified\<close> timestamps set.
\<close>

definition ctad_with_provenance ::
  "nat \<Rightarrow> nat \<Rightarrow> provenance_body \<Rightarrow> CTADMetadata \<Rightarrow> CTADMetadata" where
  "ctad_with_provenance now pid b ctad =
     ctad\<lparr>ai := Some
             \<lparr>involved = True,
              platforms = Some
                ((case ai ctad of
                    None \<Rightarrow> []
                  | Some a \<Rightarrow> (case platforms a of None \<Rightarrow> [] | Some ps \<Rightarrow> ps))
                 @ [\<lparr>platform_name = platform b, platform_version = platformVersion b,
                      platform_role = ''full_generation''\<rparr>]),
              estimatedContribution =
                (case ai ctad of None \<Rightarrow> None | Some a \<Rightarrow> estimatedContribution a),
              o8ProvenanceId = Some pid,
              humanOversight = (case ai ctad of None \<Rightarrow> None | Some a \<Rightarrow> humanOversight a)\<rparr>,
           timestamps := (timestamps ctad)\<lparr>generated := Some (generatedAt b),
                                             modified := Some now\<rparr>\<rparr>"

text \<open>
  The handler \<^verbatim>\<open>POST /api/v1/works/[id]/provenance\<close> behind the API-key wrapper.
  \<open>parseDate\<close> stands for \<^verbatim>\<open>new Date(x)\<close>, with \<open>None\<close> for an invalid date, which the
  client refuses to store. Body members are stored as they arrive. The provenance row
  and the work update are two separate writes.
\<close>

definition POST_provenance ::
  "(jsvalue \<Rightarrow> nat option) \<Rightarrow> nat \<Rightarrow> Store \<Rightarrow> string \<Rightarrow> provenance_body option
    \<Rightarrow> Store \<times> (error + nat)" where
  "POST_provenance parseDate now st wid body =
     (case body of
        None \<Rightarrow> (st, Inl InternalError)
      | Some b \<Rightarrow>
          if \<not> truthy (platform b) then (st, Inl ValidationError)
          else if \<not> truthy (generatedAt b) then (st, Inl ValidationError)
          else if \<not> truthy (prompt b) then (st, Inl ValidationError)
          else if \<not> truthy (signature b) then (st, Inl ValidationError)
          else if \<not> truthy (publicKey b) then (st, Inl ValidationError)
          else if \<not> truthy (signedAt b) then (st, Inl ValidationError)
          else if \<not> truthy (creatorPlatformId b) then (st, Inl ValidationError)
          else
            (case findUnique_id (works st) wid of
               None \<Rightarrow> (st, Inl NotFound)
             | Some work \<Rightarrow>
                 if find (\<lambda>p. prov_workId p = wid) (o8Provenances st) \<noteq> None
                 then (st, Inl Conflict)
                 else
                   (case (parseDate (generatedAt b), parseDate (signedAt b)) of
                      (Some g, Some sg) \<Rightarrow>
                        (let provenance =
                               \<lparr>prov_id = length (o8Provenances st), prov_workId = wid,
                                prov_platform = platform b,
                                prov_platformVersion = or_null (platformVersion b),
                                prov_generatedAt = g, prov_prompt = prompt b,
                                prov_negativePrompt = or_null (negativePrompt b),
                                prov_parameters = or_null (parameters b),
                                prov_originalAudioUrl = or_null (originalAudioUrl b),
                                prov_originalTitle = or_null (originalTitle b),
                                prov_creatorPlatformId = creatorPlatformId b,
                                prov_creatorPlatformName = or_null (creatorPlatformName b),
                                prov_signatureAlgorithm =
                                  (if truthy (signatureAlgorithm b) then signatureAlgorithm b
                                   else JStr ''ed25519''),
                                prov_publicKey = publicKey b, prov_signature = signature b,
                                prov_signedAt = sg, prov_verified = False\<rparr>;
                             st1 = st\<lparr>o8Provenances := o8Provenances st @ [provenance]\<rparr>
                         in case ctadMetadata work of
                              None \<Rightarrow> (st1, Inr (prov_id provenance))
                            | Some ctad \<Rightarrow>
                                (case work_update wid
                                        (\<lambda>w. w\<lparr>ctadMetadata := Some
                                               (ctad_with_provenance now (prov_id provenance) b ctad)\<rparr>)
                                        st1 of
                                   None \<Rightarrow> (st1, Inl InternalError)
                                 | Some (st2, w') \<Rightarrow> (st2, Inr (prov_id provenance))))
                    | _ \<Rightarrow> (st, Inl InternalError))))"

section \<open>Edge registry\<close>

record edge_body =
  eb_fromWorkId :: jsvalue
  eb_toWorkId :: jsvalue
  eb_type :: jsvalue

fun EdgeType_str :: "EdgeType \<Rightarrow> string" where
  "EdgeType_str FORK = ''FORK''"
| "EdgeType_str MERGE = ''MERGE''"
| "EdgeType_str DERIVED = ''DERIVED''"

text \<open>\<^verbatim>\<open>Object.values(EdgeType).includes(type)\<close>, with the member found.\<close>

definition EdgeType_of :: "jsvalue \<Rightarrow> EdgeType option" where
  "EdgeType_of v = find (\<lambda>t. v = JStr (EdgeType_str t)) [FORK, MERGE, DERIVED]"

text \<open>
  The handler \<^verbatim>\<open>POST /api/edges\<close> after \<^verbatim>\<open>requireCreator\<close>. An identifier that is truthy
  but not a string is refused by the client when the works are looked up, which ends in
  the \<^verbatim>\<open>catch\<close> branch.
\<close>

definition POST_edges :: "Store \<Rightarrow> edge_body option \<Rightarrow> Store \<times> (error + WorkEdge)" where
  "POST_edges st body =
     (case body of
        None \<Rightarrow> (st, Inl InternalError)
      | Some b \<Rightarrow>
          if \<not> truthy (eb_fromWorkId b) \<or> \<not> truthy (eb_toWorkId b)
          then (st, Inl ValidationError)
          else if \<not> truthy (eb_type b) \<or> EdgeType_of (eb_type b) = None
          then (st, Inl ValidationError)
          else
            (case (eb_fromWorkId b, eb_toWorkId b, EdgeType_of (eb_type b)) of
               (JStr a, JStr c, Some ty) \<Rightarrow>
                 (case (findUnique_id (works st) a, findUnique_id (works st) c) of
                    (Some fromWork, Some toWork) \<Rightarrow>
                      if status toWork = CANON then (st, Inl ImmutableTarget)
                      else if findUnique_edge (workEdges st) a c \<noteq> None
                      then (st, Inl DuplicateEdge)
                      else
                        (let edge = \<lparr>edge_id = length (workEdges st), fromWorkId = a,
                                       toWorkId = c, edge_type = ty\<rparr>
                         in (st\<lparr>workEdges := workEdges st @ [edge]\<rparr>, Inr edge))
                  | _ \<Rightarrow> (st, Inl NotFound))
             | _ \<Rightarrow> (st, Inl InternalError)))"

text \<open>The operation \<^verbatim>\<open>createEdge(sourceId, targetId, type)\<close>: the handler on a body of two strings and an edge type.\<close>

definition createEdge :: "Store \<Rightarrow> string \<Rightarrow> string \<Rightarrow> EdgeType \<Rightarrow> Store \<times> (error + WorkEdge)" where
  "createEdge st sourceId targetId ty =
     POST_edges st (Some \<lparr>eb_fromWorkId = JStr sourceId, eb_toWorkId = JStr targetId,
                           eb_type = JStr (EdgeType_str ty)\<rparr>)"

section \<open>Lineage graph builder\<close>

record LineageNode =
  node_id :: string
  node_slug :: string
  node_title :: string
  node_status :: WorkStatus
  depth :: int

record LineageEdge =
  ledge_id :: nat
  source :: string
  target :: string
  ledge_type :: EdgeType

record LineageGraph =
  graph_nodes :: "LineageNode list"
  graph_edges :: "LineageEdge list"

datatype Direction = Up | Down

fun Direction_str :: "Direction \<Rightarrow> string" where
  "Direction_str Up = ''up''"
| "Direction_str Down = ''down''"

record QueueItem =
  item_workId :: string
  direction :: Direction
  currentDepth :: int

text \<open>
  The result of \<^verbatim>\<open>parseInt\<close> on the \<^verbatim>\<open>depth\<close> query parameter (\<^verbatim>\<open>'3'\<close> when it is absent):
  an integer, or NaN when the parameter does not start with a number.
\<close>

datatype jsnum = Num int | NaN

text \<open>\<^verbatim>\<open>currentDepth >= depth\<close>; every comparison with NaN is false.\<close>

fun depth_reached :: "int \<Rightarrow> jsnum \<Rightarrow> bool" where
  "depth_reached cd (Num n) = (n \<le> cd)"
| "depth_reached cd NaN = False"

text \<open>
  The local state of the traversal: the node map (a JavaScript \<^verbatim>\<open>Map\<close>, which keeps its
  keys in insertion order), the edge list, the set of visit keys and the queue.
\<close>

record bfs_state =
  nodes :: "(string \<times> LineageNode) list"
  edges :: "LineageEdge list"
  visited :: "string set"
  queue :: "QueueItem list"

definition nodes_has :: "(string \<times> LineageNode) list \<Rightarrow> string \<Rightarrow> bool" where
  "nodes_has ns k = (map_of ns k \<noteq> None)"

definition nodes_set ::
  "string \<Rightarrow> LineageNode \<Rightarrow> (string \<times> LineageNode) list \<Rightarrow> (string \<times> LineageNode) list" where
  "nodes_set k v ns = AList.update k v ns"

text \<open>The template \<^verbatim>\<open>`${workId}-${direction}`\<close>.\<close>

definition visitKey :: "string \<Rightarrow> Direction \<Rightarrow> string" where
  "visitKey w d = w @ ''-'' @ Direction_str d"

text \<open>
  \<^verbatim>\<open>prisma.workEdge.findMany({ where: { toWorkId }, include: { fromWork: true } })\<close> and its
  mirror image: the edges into (out of) a work, each joined with the work at its other
  end. The schema's foreign keys give every edge exactly one such work.
\<close>

definition parentEdges :: "Store \<Rightarrow> string \<Rightarrow> (WorkEdge \<times> Work) list" where
  "parentEdges st w =
     List.map_filter
       (\<lambda>e. if toWorkId e = w then map_option (Pair e) (findUnique_id (works st) (fromWorkId e))
            else None)
       (workEdges st)"

definition childEdges :: "Store \<Rightarrow> string \<Rightarrow> (WorkEdge \<times> Work) list" where
  "childEdges st w =
     List.map_filter
       (\<lambda>e. if fromWorkId e = w then map_option (Pair e) (findUnique_id (works st) (toWorkId e))
            else None)
       (workEdges st)"

definition lineage_node :: "Work \<Rightarrow> int \<Rightarrow> LineageNode" where
  "lineage_node w d =
     \<lparr>node_id = work_id w, node_slug = slug w, node_title = title w, node_status = status w,
      depth = d\<rparr>"

definition lineage_edge :: "WorkEdge \<Rightarrow> LineageEdge" where
  "lineage_edge e =
     \<lparr>ledge_id = edge_id e, source = fromWorkId e, target = toWorkId e,
      ledge_type = edge_type e\<rparr>"

text \<open>
  The body of the loop over \<^verbatim>\<open>parentEdges\<close>: the node of the parent is set when the map
  has no entry under the parent's identifier, the edge is appended, the parent is
  enqueued. The node's \<^verbatim>\<open>id\<close> member is the edge's \<^verbatim>\<open>fromWorkId\<close>.
\<close>

definition up_edge :: "int \<Rightarrow> WorkEdge \<times> Work \<Rightarrow> bfs_state \<Rightarrow> bfs_state" where
  "up_edge cd ew s =
     (let e = fst ew; fromWork = snd ew
      in s\<lparr>nodes :=
             (if \<not> nodes_has (nodes s) (fromWorkId e)
              then nodes_set (fromWorkId e)
                     ((lineage_node fromWork (- (cd + 1)))\<lparr>node_id := fromWorkId e\<rparr>) (nodes s)
              else nodes s),
           edges := edges s @ [lineage_edge e],
           queue := queue s @ [\<lparr>item_workId = fromWorkId e, direction = Up,
                                 currentDepth = cd + 1\<rparr>]\<rparr>)"

text \<open>
  The body of the loop over \<^verbatim>\<open>childEdges\<close>: as above, but the edge is appended only when
  \<^verbatim>\<open>edges.find\<close> finds no recorded edge with the same source and target.
\<close>

definition down_edge :: "int \<Rightarrow> WorkEdge \<times> Work \<Rightarrow> bfs_state \<Rightarrow> bfs_state" where
  "down_edge cd ew s =
     (let e = fst ew; toWork = snd ew
      in s\<lparr>nodes :=
             (if \<not> nodes_has (nodes s) (toWorkId e)
              then nodes_set (toWorkId e)
                     ((lineage_node toWork (cd + 1))\<lparr>node_id := toWorkId e\<rparr>) (nodes s)
              else nodes s),
           edges :=
             (if find (\<lambda>x. source x = fromWorkId e \<and> target x = toWorkId e) (edges s) = None
              then edges s @ [lineage_edge e]
              else edges s),
           queue := queue s @ [\<lparr>item_workId = toWorkId e, direction = Down,
                                 currentDepth = cd + 1\<rparr>]\<rparr>)"

text \<open>
  One iteration of \<^verbatim>\<open>while (queue.length > 0)\<close>: \<^verbatim>\<open>queue.shift()\<close>, the two
  \<^verbatim>\<open>continue\<close> guards, the visit key, and the loop over the fetched edges.
\<close>

definition bfs_step :: "Store \<Rightarrow> jsnum \<Rightarrow> bfs_state \<Rightarrow> bfs_state" where
  "bfs_step st maxDepth s =
     (case queue s of
        [] \<Rightarrow> s
      | item # rest \<Rightarrow>
          (let s1 = s\<lparr>queue := rest\<rparr>
           in if depth_reached (currentDepth item) maxDepth then s1
              else if visitKey (item_workId item) (direction item) \<in> visited s1 then s1
              else
                (let s2 = s1\<lparr>visited :=
                               insert (visitKey (item_workId item) (direction item)) (visited s1)\<rparr>
                 in case direction item of
                      Up \<Rightarrow>
                        fold (up_edge (currentDepth item)) (parentEdges st (item_workId item)) s2
                    | Down \<Rightarrow>
                        fold (down_edge (currentDepth item)) (childEdges st (item_workId item)) s2)))"

text \<open>The loop. It returns the state in which the queue is empty, if it ever is.\<close>

partial_function (option) bfs_loop :: "Store \<Rightarrow> jsnum \<Rightarrow> bfs_state \<Rightarrow> bfs_state option" where
  "bfs_loop st maxDepth s =
     (if queue s = [] then Some s else bfs_loop st maxDepth (bfs_step st maxDepth s))"

text \<open>The state before the loop: the start work at depth 0, queued in both directions.\<close>

definition bfs_init :: "Work \<Rightarrow> bfs_state" where
  "bfs_init startWork =
     \<lparr>nodes = nodes_set (work_id startWork) (lineage_node startWork 0) [],
      edges = [],
      visited = {},
      queue = [\<lparr>item_workId = work_id startWork, direction = Up, currentDepth = 0\<rparr>,
               \<lparr>item_workId = work_id startWork, direction = Down, currentDepth = 0\<rparr>]\<rparr>"

text \<open>
  The handler \<^verbatim>\<open>GET /api/works/[id]/lineage\<close>, the operation \<^verbatim>\<open>buildGraph\<close>. The result
  is \<open>None\<close> when the loop does not end.
\<close>

definition buildGraph :: "Store \<Rightarrow> string \<Rightarrow> jsnum \<Rightarrow> (error + LineageGraph) option" where
  "buildGraph st i maxDepth =
     (case findFirst_id_or_slug (works st) i of
        None \<Rightarrow> Some (Inl NotFound)
      | Some startWork \<Rightarrow>
          map_option
            (\<lambda>s. Inr \<lparr>graph_nodes = map snd (nodes s), graph_edges = edges s\<rparr>)
            (bfs_loop st maxDepth (bfs_init startWork)))"

declare bfs_loop.simps [code]

section \<open>Predicates of the statements\<close>

text \<open>
  The key constraints of the works table: identifiers are unique, slugs are unique, and
  no slug is the identifier of another work.
\<close>

definition store_keys_ok :: "Work list \<Rightarrow> bool" where
  "store_keys_ok ws =
     (distinct (map work_id ws) \<and> distinct (map slug ws)
      \<and> (\<forall>a\<in>set ws. \<forall>b\<in>set ws. slug a = work_id b \<longrightarrow> a = b))"

text \<open>
  \<open>chain es k a b\<close>: the edges \<open>es\<close> lead from \<open>a\<close> to \<open>b\<close> in \<open>k\<close> steps, so that
  \<open>a\<close> is an ancestor of \<open>b\<close> and \<open>b\<close> a descendant of \<open>a\<close> at distance \<open>k\<close>.
\<close>

fun chain :: "WorkEdge list \<Rightarrow> nat \<Rightarrow> string \<Rightarrow> string \<Rightarrow> bool" where
  "chain es 0 a b = (a = b)"
| "chain es (Suc k) a b = (\<exists>e\<in>set es. fromWorkId e = a \<and> chain es k (toWorkId e) b)"

text \<open>
  The invariant of the traversal for root \<open>r\<close> and depth bound \<open>N\<close>: every queued item
  and every node carries a depth that a chain of edges to or from the root accounts
  for, the node map has one entry per key, and the root sits at depth 0.
\<close>

definition queue_item_ok :: "WorkEdge list \<Rightarrow> string \<Rightarrow> QueueItem \<Rightarrow> bool" where
  "queue_item_ok es r q =
     (0 \<le> currentDepth q
      \<and> (case direction q of
            Up \<Rightarrow> chain es (nat (currentDepth q)) (item_workId q) r
          | Down \<Rightarrow> chain es (nat (currentDepth q)) r (item_workId q)))"

definition node_ok :: "WorkEdge list \<Rightarrow> string \<Rightarrow> int \<Rightarrow> string \<times> LineageNode \<Rightarrow> bool" where
  "node_ok es r N kn =
     (node_id (snd kn) = fst kn
      \<and> \<bar>depth (snd kn)\<bar> \<le> N
      \<and> (depth (snd kn) = 0 \<longrightarrow> fst kn = r)
      \<and> (depth (snd kn) < 0 \<longrightarrow> chain es (nat (- depth (snd kn))) (fst kn) r)
      \<and> (0 < depth (snd kn) \<longrightarrow> chain es (nat (depth (snd kn))) r (fst kn)))"

definition lineage_inv :: "Store \<Rightarrow> string \<Rightarrow> int \<Rightarrow> bfs_state \<Rightarrow> bool" where
  "lineage_inv st r N s =
     ((\<forall>q\<in>set (queue s). queue_item_ok (workEdges st) r q)
      \<and> (\<forall>kn\<in>set (nodes s). node_ok (workEdges st) r N kn)
      \<and> distinct (map fst (nodes s))
      \<and> (\<exists>n. map_of (nodes s) r = Some n \<and> depth n = 0))"

text \<open>
  The measure of the traversal: the visit keys over the works of the edge table and of
  the queue that are not visited yet, weighted so that the edges enqueued by one
  expansion are paid for, plus the length of the queue.
\<close>

definition store_ids :: "Store \<Rightarrow> string set" where
  "store_ids st = fromWorkId ` set (workEdges st) \<union> toWorkId ` set (workEdges st)"

definition pending_keys :: "Store \<Rightarrow> bfs_state \<Rightarrow> string set" where
  "pending_keys st s =
     (\<lambda>(w, d). visitKey w d) ` ((store_ids st \<union> item_workId ` set (queue s)) \<times> {Up, Down})
       - visited s"

definition bfs_measure :: "Store \<Rightarrow> bfs_state \<Rightarrow> nat" where
  "bfs_measure st s =
     card (pending_keys st s) * (length (workEdges st) + 1) + length (queue s)"

section \<open>Example data\<close>

text \<open>The stores and requests at which the theorems below are instantiated.\<close>

definition curator1 :: User where
  "curator1 = \<lparr>user_id = ''u1'', user_name = Some ''Elena Voss''\<rparr>"

definition mk_work :: "string \<Rightarrow> string \<Rightarrow> WorkStatus \<Rightarrow> Work" where
  "mk_work i sl stt = \<lparr>work_id = i, slug = sl, title = sl, description = None, audioUrl = None,
     status = stt, canonLockedAt = None, canonLockedByUserId = None, ctadMetadata = None\<rparr>"

definition store_W :: Store where
  "store_W = \<lparr>works = [mk_work ''w1'' ''midnight-echoes-a3b2'' JAM], workEdges = [], promotionEvents = [], o8Provenances = []\<rparr>"

definition work_W :: Work where
  "work_W = mk_work ''w1'' ''midnight-echoes-a3b2'' JAM"

definition justification1 :: jsvalue where
  "justification1 = JStr ''Exceptional craftsmanship and lasting cultural resonance.''"

definition justification2 :: jsvalue where
  "justification2 = JStr ''Confirmed after community review period.''"

definition event1 :: PromotionEvent where
  "event1 = \<lparr>event_id = 0, workId = ''w1'', fromStatus = JAM, toStatus = PLATE,
     justification = ''Exceptional craftsmanship and lasting cultural resonance.'',
     signedByUserId = ''u1'', signedByDisplayName = ''Elena Voss'', createdAt = 1000\<rparr>"

definition event2 :: PromotionEvent where
  "event2 = \<lparr>event_id = 1, workId = ''w1'', fromStatus = PLATE, toStatus = CANON,
     justification = ''Confirmed after community review period.'',
     signedByUserId = ''u1'', signedByDisplayName = ''Elena Voss'', createdAt = 2000\<rparr>"

definition store_W_plate :: Store where
  "store_W_plate = \<lparr>works = [work_W\<lparr>status := PLATE\<rparr>], workEdges = [],
     promotionEvents = [event1], o8Provenances = []\<rparr>"

definition work_W_canon :: Work where
  "work_W_canon = work_W\<lparr>status := CANON, canonLockedAt := Some 2000,
                         canonLockedByUserId := Some ''u1''\<rparr>"

definition store_W_canon :: Store where
  "store_W_canon = \<lparr>works = [work_W_canon], workEdges = [],
     promotionEvents = [event1, event2], o8Provenances = []\<rparr>"

definition work_A :: Work where "work_A = mk_work ''a'' ''alpha-k3x9'' JAM"
definition work_B :: Work where "work_B = mk_work ''b'' ''beta-p0q1'' JAM"
definition work_C :: Work where "work_C = mk_work ''c'' ''gamma-z8y7'' JAM"

definition store_ABC :: Store where
  "store_ABC = \<lparr>works = [work_A, work_B, work_C],
     workEdges = [\<lparr>edge_id = 0, fromWorkId = ''a'', toWorkId = ''b'', edge_type = FORK\<rparr>,
                  \<lparr>edge_id = 1, fromWorkId = ''b'', toWorkId = ''c'', edge_type = DERIVED\<rparr>],
     promotionEvents = [], o8Provenances = []\<rparr>"

definition graph_ABC :: LineageGraph where
  "graph_ABC = \<lparr>graph_nodes = [lineage_node work_B 0, lineage_node work_A (- 1), lineage_node work_C 1],
     graph_edges = [\<lparr>ledge_id = 0, source = ''a'', target = ''b'', ledge_type = FORK\<rparr>,
                    \<lparr>ledge_id = 1, source = ''b'', target = ''c'', ledge_type = DERIVED\<rparr>]\<rparr>"

definition work_R :: Work where "work_R = mk_work ''r'' ''root-aaaa'' JAM"
definition work_S :: Work where "work_S = mk_work ''s'' ''remix-bbbb'' JAM"

definition store_cycle :: Store where
  "store_cycle = \<lparr>works = [work_R, work_S],
     workEdges = [\<lparr>edge_id = 0, fromWorkId = ''r'', toWorkId = ''s'', edge_type = FORK\<rparr>,
                  \<lparr>edge_id = 1, fromWorkId = ''s'', toWorkId = ''r'', edge_type = MERGE\<rparr>],
     promotionEvents = [], o8Provenances = []\<rparr>"

definition graph_cycle :: LineageGraph where
  "graph_cycle = \<lparr>graph_nodes = [lineage_node work_R 0, lineage_node work_S (- 1)],
     graph_edges = [\<lparr>ledge_id = 1, source = ''s'', target = ''r'', ledge_type = MERGE\<rparr>,
                    \<lparr>ledge_id = 0, source = ''r'', target = ''s'', ledge_type = FORK\<rparr>,
                    \<lparr>ledge_id = 0, source = ''r'', target = ''s'', ledge_type = FORK\<rparr>]\<rparr>"

definition work_X :: Work where "work_X = mk_work ''x'' ''xenon-1a2b'' JAM"

definition work_Y :: Work where
  "work_Y = (mk_work ''y'' ''ytterbium-3c4d'' CANON)\<lparr>canonLockedAt := Some 500,
                canonLockedByUserId := Some ''u1''\<rparr>"

definition store_XY :: Store where
  "store_XY = \<lparr>works = [work_X, work_Y], workEdges = [], promotionEvents = [],
     o8Provenances = []\<rparr>"

definition example_parseDate :: "jsvalue \<Rightarrow> nat option" where
  "example_parseDate v =
     (if v = JStr ''2024-06-15T00:00:00.000Z'' then Some 1718409600000 else None)"

definition ctad_W :: CTADMetadata where
  "ctad_W = \<lparr>ai = None,
     timestamps = \<lparr>created = ''2024-01-01T00:00:00.000Z'', modified = None,
                    generated = None, released = None\<rparr>,
     ctad_other = ''track: Midnight Echoes''\<rparr>"

definition ctad_W_after :: CTADMetadata where
  "ctad_W_after = \<lparr>ai = Some \<lparr>involved = True,
       platforms = Some [\<lparr>platform_name = JStr ''suno'', platform_version = JStr ''v4'',
                           platform_role = ''full_generation''\<rparr>],
       estimatedContribution = None, o8ProvenanceId = Some 0, humanOversight = None\<rparr>,
     timestamps = \<lparr>created = ''2024-01-01T00:00:00.000Z'', modified = Some 3000,
                    generated = Some (JStr ''2024-06-15T00:00:00.000Z''), released = None\<rparr>,
     ctad_other = ''track: Midnight Echoes''\<rparr>"

definition store_canon_ctad :: Store where
  "store_canon_ctad = \<lparr>works = [work_W_canon\<lparr>ctadMetadata := Some ctad_W\<rparr>], workEdges = [],
     promotionEvents = [event1, event2], o8Provenances = []\<rparr>"

definition provenance_request :: provenance_body where
  "provenance_request = \<lparr>platform = JStr ''suno'', platformVersion = JStr ''v4'',
     generatedAt = JStr ''2024-06-15T00:00:00.000Z'', prompt = JStr ''city sounds at 3AM'',
     negativePrompt = JUndefined, parameters = JUndefined, originalAudioUrl = JUndefined,
     originalTitle = JUndefined, creatorPlatformId = JStr ''creator-77'',
     creatorPlatformName = JUndefined, signature = JStr ''c2lnbmF0dXJl'',
     publicKey = JStr ''cHVibGljS2V5'', signedAt = JStr ''2024-06-15T00:00:00.000Z'',
     signatureAlgorithm = JUndefined\<rparr>"

section \<open>Properties of the promotion engine\<close>

lemmas example_defs = store_W_def work_W_def mk_work_def curator1_def justification1_def
  justification2_def event1_def event2_def store_W_plate_def store_W_canon_def work_W_canon_def

lemmas eval_defs = findFirst_id_or_slug_def findUnique_id_def trim_def is_space_def

lemmas promote_defs = promote_def transaction2_def attempt_def promotionEvent_create_def
  work_update_def promote_data_def display_name_def Let_def

lemma find_map_preserved:
  assumes "\<And>r. P (g r) = P r"
  shows "find P (map g xs) = map_option g (find P xs)"
  using assms by (induction xs) simp_all

lemma find_Some_D: "find P xs = Some x \<Longrightarrow> P x \<and> x \<in> set xs"
  by (induction xs) (auto split: if_splits)

lemma findFirst_has_id:
  assumes "findFirst_id_or_slug ws i = Some w"
  shows "findUnique_id ws (work_id w) \<noteq> None"
proof -
  from assms have "w \<in> set ws"
    unfolding findFirst_id_or_slug_def by (auto dest: find_Some_D)
  then show ?thesis
    unfolding findUnique_id_def by (auto simp: find_None_iff)
qed

lemma promote_data_keys [simp]:
  "work_id (promote_data now u nxt w) = work_id w" "slug (promote_data now u nxt w) = slug w"
  by (simp_all add: promote_data_def)

lemma findFirst_after_update:
  assumes "findFirst_id_or_slug ws i = Some w"
    and "\<And>r. work_id (f r) = work_id r \<and> slug (f r) = slug r"
  shows "findFirst_id_or_slug (map (\<lambda>r. if work_id r = work_id w then f r else r) ws) i = Some (f w)"
proof -
  have "find (\<lambda>w. work_id w = i \<or> slug w = i) (map (\<lambda>r. if work_id r = work_id w then f r else r) ws)
      = map_option (\<lambda>r. if work_id r = work_id w then f r else r) (find (\<lambda>w. work_id w = i \<or> slug w = i) ws)"
    by (rule find_map_preserved) (simp add: assms(2))
  with assms(1) show ?thesis by (simp add: findFirst_id_or_slug_def)
qed

text \<open>The successful branch of promote, spelled out.\<close>

lemma promote_commit:
  assumes ok: "justification_ok j"
    and fnd: "findFirst_id_or_slug (works st) i = Some w"
    and nxt: "VALID_PROMOTIONS (status w) = Some nextStatus"
    and w0: "sto \<noteq> FailsAt 0" and w1: "sto \<noteq> FailsAt 1"
  shows "\<exists>ev rw. promote sto now u st i (Some j) =
           (st\<lparr>promotionEvents := promotionEvents st @ [ev],
               works := map (\<lambda>r. if work_id r = work_id w then promote_data now u nextStatus r else r) (works st)\<rparr>,
            Inr \<lparr>res_work = rw, res_promotionEvent = ev\<rparr>)
         \<and> workId ev = work_id w \<and> fromStatus ev = status w \<and> toStatus ev = nextStatus
         \<and> justification ev = trim (js_string j) \<and> signedByDisplayName ev = display_name u
         \<and> signedByUserId ev = user_id u \<and> createdAt ev = now
         \<and> status rw = nextStatus"
proof -
  from findFirst_has_id [OF fnd] obtain r0 where r0: "findUnique_id (works st) (work_id w) = Some r0"
    by auto
  show ?thesis
    using ok fnd nxt r0 w0 w1
    by (simp add: promote_def transaction2_def attempt_def promotionEvent_create_def
        work_update_def Let_def promote_data_def)
qed

text \<open>A failed write of the transaction: nothing is kept, the answer is 500.\<close>

lemma promote_rollback:
  assumes ok: "justification_ok j"
    and fnd: "findFirst_id_or_slug (works st) i = Some w"
    and nxt: "VALID_PROMOTIONS (status w) = Some nextStatus"
    and k: "k < 2"
  shows "promote (FailsAt k) now u st i (Some j) = (st, Inl InternalError)"
proof -
  from k have "k = 0 \<or> k = 1" by auto
  then show ?thesis
    using ok fnd nxt
    by (auto simp: promote_def transaction2_def attempt_def promotionEvent_create_def Let_def)
qed


lemma promote_outcome:
  "fst (promote sto now u st i body) = st
   \<or> (\<exists>w nextStatus ev.
         findFirst_id_or_slug (works st) i = Some w
       \<and> VALID_PROMOTIONS (status w) = Some nextStatus
       \<and> workId ev = work_id w \<and> fromStatus ev = status w \<and> toStatus ev = nextStatus
       \<and> fst (promote sto now u st i body) =
           st\<lparr>promotionEvents := promotionEvents st @ [ev],
              works := map (\<lambda>r. if work_id r = work_id w
                                 then promote_data now u nextStatus r else r) (works st)\<rparr>)"
proof (cases body)
  case None
  then show ?thesis by (simp add: promote_def)
next
  case (Some j)
  show ?thesis
  proof (cases "justification_ok j")
    case False
    with Some show ?thesis by (simp add: promote_def)
  next
    case ok: True
    show ?thesis
    proof (cases "findFirst_id_or_slug (works st) i")
      case None
      with Some ok show ?thesis by (simp add: promote_def)
    next
      case fnd: (Some w)
      show ?thesis
      proof (cases "VALID_PROMOTIONS (status w)")
        case None
        with Some ok fnd show ?thesis by (simp add: promote_def)
      next
        case nxt: (Some nextStatus)
        show ?thesis
        proof (cases "sto = FailsAt 0 \<or> sto = FailsAt 1")
          case True
          then obtain k where "sto = FailsAt k" "k < 2" by auto
          with promote_rollback [OF ok fnd nxt, of k now u] Some show ?thesis by simp
        next
          case False
          then have h: "sto \<noteq> FailsAt 0" "sto \<noteq> FailsAt 1" by simp_all
          from promote_commit [OF ok fnd nxt h, of now u] Some fnd nxt
          show ?thesis by fastforce
        qed
      qed
    qed
  qed
qed

text \<open>
  Claim C2. From a work at JAM with no lock timestamp, a promote with a valid
  justification returns the promoted work at PLATE, leaves the work in the store at
  PLATE with every other column as before (the lock timestamp still null) and appends
  exactly one promotion event JAM to PLATE; a second valid promote returns the work at
  CANON, leaves it in the store at CANON with the lock timestamp set to the time of the
  call and the locking curator set to the signing user, and appends one event PLATE to
  CANON. The two writes of a promotion are atomic: on every store, healthy or failing
  a write, a call of promote either returns the store as it was, or returns the store
  with both writes made, the event appended and the tier (with the lock, for CANON)
  updated; and when the store fails the event insert or the work update of a valid
  promotion, the call answers 500 and the store is as it was, so that an event inserted
  before a failed work update is not kept.
\<close>

theorem promote_jam_to_plate_to_canon:
  assumes fnd: "findFirst_id_or_slug (works st) i = Some w"
    and jam: "status w = JAM"
    and unlocked: "canonLockedAt w = None"
    and ok1: "justification_ok j1"
    and ok2: "justification_ok j2"
    and first: "promote Healthy t1 u st i (Some j1) = (st1, r1)"
    and second: "promote Healthy t2 u st1 i (Some j2) = (st2, r2)"
  shows "(\<exists>p1 w1.
            r1 = Inr p1 \<and> status (res_work p1) = PLATE
          \<and> findFirst_id_or_slug (works st1) i = Some w1
          \<and> w1 = w\<lparr>status := PLATE\<rparr> \<and> canonLockedAt w1 = None
          \<and> promotionEvents st1 = promotionEvents st @ [res_promotionEvent p1]
          \<and> workId (res_promotionEvent p1) = work_id w
          \<and> fromStatus (res_promotionEvent p1) = JAM
          \<and> toStatus (res_promotionEvent p1) = PLATE)
       \<and> (\<exists>p2 w2.
            r2 = Inr p2 \<and> status (res_work p2) = CANON
          \<and> findFirst_id_or_slug (works st2) i = Some w2
          \<and> w2 = w\<lparr>status := CANON, canonLockedAt := Some t2,
                    canonLockedByUserId := Some (user_id u)\<rparr>
          \<and> promotionEvents st2 = promotionEvents st1 @ [res_promotionEvent p2]
          \<and> workId (res_promotionEvent p2) = work_id w
          \<and> fromStatus (res_promotionEvent p2) = PLATE
          \<and> toStatus (res_promotionEvent p2) = CANON)
       \<and> (\<forall>sto' now' u' s' i' b'.
            fst (promote sto' now' u' s' i' b') = s'
          \<or> (\<exists>w' nextStatus ev.
                findFirst_id_or_slug (works s') i' = Some w'
              \<and> VALID_PROMOTIONS (status w') = Some nextStatus
              \<and> workId ev = work_id w' \<and> fromStatus ev = status w' \<and> toStatus ev = nextStatus
              \<and> fst (promote sto' now' u' s' i' b') =
                  s'\<lparr>promotionEvents := promotionEvents s' @ [ev],
                     works := map (\<lambda>r. if work_id r = work_id w'
                                        then promote_data now' u' nextStatus r else r)
                                (works s')\<rparr>))
       \<and> (\<forall>k now' u' s' i' j' w' nextStatus.
            k < 2 \<and> justification_ok j' \<and> findFirst_id_or_slug (works s') i' = Some w'
            \<and> VALID_PROMOTIONS (status w') = Some nextStatus
            \<longrightarrow> promote (FailsAt k) now' u' s' i' (Some j') = (s', Inl InternalError))"
proof (intro conjI)
  from jam have n1: "VALID_PROMOTIONS (status w) = Some PLATE" by simp
  from promote_commit [OF ok1 fnd n1, of Healthy t1 u] first
  obtain ev1 rw1 where
    st1: "st1 = st\<lparr>promotionEvents := promotionEvents st @ [ev1],
                   works := map (\<lambda>r. if work_id r = work_id w
                                      then promote_data t1 u PLATE r else r) (works st)\<rparr>"
    and r1: "r1 = Inr \<lparr>res_work = rw1, res_promotionEvent = ev1\<rparr>"
    and ev1: "workId ev1 = work_id w" "fromStatus ev1 = status w" "toStatus ev1 = PLATE"
    and rw1: "status rw1 = PLATE"
    by auto
  have f1: "findFirst_id_or_slug (works st1) i = Some (promote_data t1 u PLATE w)"
    unfolding st1 using findFirst_after_update [OF fnd, of "promote_data t1 u PLATE"] by simp
  have w1: "promote_data t1 u PLATE w = w\<lparr>status := PLATE\<rparr>"
    by (simp add: promote_data_def)
  show "\<exists>p1 w1.
            r1 = Inr p1 \<and> status (res_work p1) = PLATE
          \<and> findFirst_id_or_slug (works st1) i = Some w1
          \<and> w1 = w\<lparr>status := PLATE\<rparr> \<and> canonLockedAt w1 = None
          \<and> promotionEvents st1 = promotionEvents st @ [res_promotionEvent p1]
          \<and> workId (res_promotionEvent p1) = work_id w
          \<and> fromStatus (res_promotionEvent p1) = JAM
          \<and> toStatus (res_promotionEvent p1) = PLATE"
    using r1 rw1 f1 w1 unlocked ev1 jam st1 by simp
  have n2: "VALID_PROMOTIONS (status (w\<lparr>status := PLATE\<rparr>)) = Some CANON" by simp
  from f1 w1 have f1': "findFirst_id_or_slug (works st1) i = Some (w\<lparr>status := PLATE\<rparr>)" by simp
  from promote_commit [OF ok2 f1' n2, of Healthy t2 u] second
  obtain ev2 rw2 where
    st2: "st2 = st1\<lparr>promotionEvents := promotionEvents st1 @ [ev2],
                   works := map (\<lambda>r. if work_id r = work_id w
                                      then promote_data t2 u CANON r else r) (works st1)\<rparr>"
    and r2: "r2 = Inr \<lparr>res_work = rw2, res_promotionEvent = ev2\<rparr>"
    and ev2: "workId ev2 = work_id w" "fromStatus ev2 = PLATE" "toStatus ev2 = CANON"
    and rw2: "status rw2 = CANON"
    by auto
  have f2: "findFirst_id_or_slug (works st2) i = Some (promote_data t2 u CANON (w\<lparr>status := PLATE\<rparr>))"
    unfolding st2 using findFirst_after_update [OF f1', of "promote_data t2 u CANON"] by simp
  have w2: "promote_data t2 u CANON (w\<lparr>status := PLATE\<rparr>)
          = w\<lparr>status := CANON, canonLockedAt := Some t2, canonLockedByUserId := Some (user_id u)\<rparr>"
    by (simp add: promote_data_def)
  show "\<exists>p2 w2.
            r2 = Inr p2 \<and> status (res_work p2) = CANON
          \<and> findFirst_id_or_slug (works st2) i = Some w2
          \<and> w2 = w\<lparr>status := CANON, canonLockedAt := Some t2,
                    canonLockedByUserId := Some (user_id u)\<rparr>
          \<and> promotionEvents st2 = promotionEvents st1 @ [res_promotionEvent p2]
          \<and> workId (res_promotionEvent p2) = work_id w
          \<and> fromStatus (res_promotionEvent p2) = PLATE
          \<and> toStatus (res_promotionEvent p2) = CANON"
    using r2 rw2 f2 w2 ev2 st2 by simp
  show "\<forall>sto' now' u' s' i' b'.
            fst (promote sto' now' u' s' i' b') = s'
          \<or> (\<exists>w' nextStatus ev.
                findFirst_id_or_slug (works s') i' = Some w'
              \<and> VALID_PROMOTIONS (status w') = Some nextStatus
              \<and> workId ev = work_id w' \<and> fromStatus ev = status w' \<and> toStatus ev = nextStatus
              \<and> fst (promote sto' now' u' s' i' b') =
                  s'\<lparr>promotionEvents := promotionEvents s' @ [ev],
                     works := map (\<lambda>r. if work_id r = work_id w'
                                        then promote_data now' u' nextStatus r else r)
                                (works s')\<rparr>)"
    using promote_outcome by blast
  show "\<forall>k now' u' s' i' j' w' nextStatus.
            k < 2 \<and> justification_ok j' \<and> findFirst_id_or_slug (works s') i' = Some w'
            \<and> VALID_PROMOTIONS (status w') = Some nextStatus
            \<longrightarrow> promote (FailsAt k) now' u' s' i' (Some j') = (s', Inl InternalError)"
    using promote_rollback by blast
qed


theorem promote_jam_to_plate_to_canon_witness:
  "findFirst_id_or_slug (works store_W) ''w1'' = Some work_W
   \<and> status work_W = JAM \<and> canonLockedAt work_W = None
   \<and> justification_ok justification1 \<and> justification_ok justification2
   \<and> fst (promote Healthy 1000 curator1 store_W ''w1'' (Some justification1)) = store_W_plate
   \<and> fst (promote Healthy 2000 curator1 store_W_plate ''w1'' (Some justification2)) = store_W_canon
   \<and> findFirst_id_or_slug (works store_W_plate) ''w1'' = Some (work_W\<lparr>status := PLATE\<rparr>)
   \<and> findFirst_id_or_slug (works store_W_canon) ''w1'' = Some work_W_canon
   \<and> promote (FailsAt 0) 1000 curator1 store_W ''w1'' (Some justification1)
     = (store_W, Inl InternalError)
   \<and> promote (FailsAt 1) 1000 curator1 store_W ''w1'' (Some justification1)
     = (store_W, Inl InternalError)"
proof -
  have h1: "findFirst_id_or_slug (works store_W) ''w1'' = Some work_W"
    by (simp add: example_defs eval_defs)
  have h2: "status work_W = JAM" and h3: "canonLockedAt work_W = None"
    by (simp_all add: example_defs)
  have h6: "VALID_PROMOTIONS (status work_W) = Some PLATE"
    by (simp add: example_defs)
  have h4: "justification_ok justification1" and h5: "justification_ok justification2"
    by (simp_all add: example_defs eval_defs)
  have s1: "fst (promote Healthy 1000 curator1 store_W ''w1'' (Some justification1)) = store_W_plate"
    by (simp add: promote_defs example_defs eval_defs)
  have s2: "fst (promote Healthy 2000 curator1 store_W_plate ''w1'' (Some justification2)) = store_W_canon"
    by (simp add: promote_defs example_defs eval_defs)
  have p1: "promote Healthy 1000 curator1 store_W ''w1'' (Some justification1)
            = (store_W_plate, snd (promote Healthy 1000 curator1 store_W ''w1'' (Some justification1)))"
    using s1 by (metis prod.collapse)
  have p2: "promote Healthy 2000 curator1 store_W_plate ''w1'' (Some justification2)
            = (store_W_canon, snd (promote Healthy 2000 curator1 store_W_plate ''w1'' (Some justification2)))"
    using s2 by (metis prod.collapse)
  note inst = promote_jam_to_plate_to_canon [OF h1 h2 h3 h4 h5 p1 p2]
  from inst
  have a: "findFirst_id_or_slug (works store_W_plate) ''w1'' = Some (work_W\<lparr>status := PLATE\<rparr>)"
    and b: "findFirst_id_or_slug (works store_W_canon) ''w1''
         = Some (work_W\<lparr>status := CANON, canonLockedAt := Some 2000,
                         canonLockedByUserId := Some (user_id curator1)\<rparr>)"
    by blast+
  from inst have rb: "\<forall>k now' u' s' i' j' w' nextStatus.
            k < 2 \<and> justification_ok j' \<and> findFirst_id_or_slug (works s') i' = Some w'
            \<and> VALID_PROMOTIONS (status w') = Some nextStatus
            \<longrightarrow> promote (FailsAt k) now' u' s' i' (Some j') = (s', Inl InternalError)"
    by blast
  have f0: "promote (FailsAt 0) 1000 curator1 store_W ''w1'' (Some justification1)
            = (store_W, Inl InternalError)"
    using rb h1 h4 h6 by (metis zero_less_numeral)
  have f1: "promote (FailsAt 1) 1000 curator1 store_W ''w1'' (Some justification1)
            = (store_W, Inl InternalError)"
    using rb h1 h4 h6 by (metis one_less_numeral_iff semiring_norm(76))
  from a b f0 f1 h1 h2 h3 h4 h5 s1 s2 show ?thesis
    by (simp add: curator1_def work_W_canon_def)
qed

text \<open>
  Claim C3, as the handler has it. A promote call on a work at CANON returns the store as it was and
  fails: with TerminalState when the justification passes validation, with
  ValidationError when it does not, since the justification is checked before the work
  is looked up.
\<close>

theorem promote_canon_refused:
  assumes "findFirst_id_or_slug (works st) i = Some w"
    and "status w = CANON"
  shows "promote sto now u st i (Some j)
         = (st, Inl (if justification_ok j then TerminalState else ValidationError))"
  using assms by (simp add: promote_def)

theorem promote_canon_refused_witness:
  "findFirst_id_or_slug (works store_W_canon) ''w1''
     = Some work_W_canon
   \<and> status work_W_canon = CANON
   \<and> promote Healthy 3000 curator1 store_W_canon ''w1'' (Some justification1)
     = (store_W_canon, Inl TerminalState)"
proof -
  have h1: "findFirst_id_or_slug (works store_W_canon) ''w1''
     = Some work_W_canon"
    by (simp add: example_defs eval_defs)
  have h2: "status work_W_canon = CANON"
    by (simp add: example_defs)
  have ok: "justification_ok justification1"
    by (simp add: example_defs eval_defs)
  from promote_canon_refused [OF h1 h2, of Healthy 3000 curator1 justification1] ok h1 h2
  show ?thesis by simp
qed

theorem promote_canon_short_justification_counterexample:
  "findFirst_id_or_slug (works store_W_canon) ''w1''
     = Some work_W_canon
   \<and> snd (promote Healthy 3000 curator1 store_W_canon ''w1'' (Some (JStr ''anything'')))
     = Inl ValidationError
   \<and> snd (promote Healthy 3000 curator1 store_W_canon ''w1'' (Some (JStr ''anything'')))
     \<noteq> Inl TerminalState"
  by (simp add: promote_def example_defs eval_defs)

text \<open>
  Claim C4, as the handler has it. The handler validates the justification first and resolves the
  work second: a promote call whose argument resolves to no work returns the store as it
  was and fails with NotFound when the justification passes validation, and with
  ValidationError when it does not.
\<close>

theorem promote_unresolved_work:
  assumes "findFirst_id_or_slug (works st) i = None"
  shows "promote sto now u st i (Some j)
         = (st, Inl (if justification_ok j then NotFound else ValidationError))"
  using assms by (simp add: promote_def)

theorem promote_unresolved_work_witness:
  "findFirst_id_or_slug (works store_W) ''no-such-work'' = None
   \<and> promote Healthy 1000 curator1 store_W ''no-such-work'' (Some justification1)
     = (store_W, Inl NotFound)"
proof -
  have h: "findFirst_id_or_slug (works store_W) ''no-such-work'' = None"
    by (simp add: example_defs eval_defs)
  have ok: "justification_ok justification1"
    by (simp add: example_defs eval_defs)
  from promote_unresolved_work [OF h, of Healthy 1000 curator1 justification1] ok h
  show ?thesis by simp
qed

theorem promote_unresolved_short_justification_counterexample:
  "findFirst_id_or_slug (works store_W) ''no-such-work'' = None
   \<and> length (trim ''too short'') < 10
   \<and> snd (promote Healthy 1000 curator1 store_W ''no-such-work'' (Some (JStr ''too short'')))
     = Inl ValidationError
   \<and> snd (promote Healthy 1000 curator1 store_W ''no-such-work'' (Some (JStr ''too short'')))
     \<noteq> Inl NotFound"
  by (simp add: promote_def example_defs eval_defs)

lemma promote_invalid_justification:
  "\<not> justification_ok j \<Longrightarrow> promote sto now user st i (Some j) = (st, Inl ValidationError)"
  by (simp add: promote_def)

text \<open>
  Claim C5. A promote call on an existing work whose justification is a string of
  trimmed length below 10 fails with ValidationError and returns the store as it was:
  no promotion event is inserted and no work changes. The check is part of every call
  of the handler; nothing in its arguments can switch it off.
\<close>

theorem promote_short_justification_rejected:
  assumes "findFirst_id_or_slug (works st) i = Some w"
    and "length (trim s) < 10"
  shows "promote sto now user st i (Some (JStr s)) = (st, Inl ValidationError)"
  using assms(2) by (simp add: promote_invalid_justification)

theorem promote_short_justification_rejected_witness:
  "findFirst_id_or_slug (works store_W) ''w1'' = Some work_W
   \<and> length (trim ''  too short  '') < 10
   \<and> promote Healthy 1000 curator1 store_W ''w1'' (Some (JStr ''  too short  ''))
     = (store_W, Inl ValidationError)"
proof -
  have h1: "findFirst_id_or_slug (works store_W) ''w1'' = Some work_W"
    by (simp add: example_defs eval_defs)
  have h2: "length (trim ''  too short  '') < 10"
    by (simp add: eval_defs)
  from promote_short_justification_rejected [OF h1 h2, of Healthy 1000 curator1] h1 h2
  show ?thesis by simp
qed


section \<open>Properties of the edge registry\<close>

lemmas edge_example_defs = work_X_def work_Y_def store_XY_def mk_work_def

lemma EdgeType_of_str [simp]: "EdgeType_of (JStr (EdgeType_str ty)) = Some ty"
  by (cases ty) (simp_all add: EdgeType_of_def)

lemma EdgeType_str_nonempty [simp]: "EdgeType_str ty \<noteq> []"
  by (cases ty) simp_all

lemma findUnique_id_None_iff: "findUnique_id ws x = None \<longleftrightarrow> x \<notin> work_id ` set ws"
  by (auto simp: findUnique_id_def find_None_iff)

lemma findUnique_edge_None_iff:
  "findUnique_edge es a b = None \<longleftrightarrow> (\<forall>e\<in>set es. \<not> (fromWorkId e = a \<and> toWorkId e = b))"
  by (auto simp: findUnique_edge_def find_None_iff)

lemma createEdge_empty_id:
  "sourceId = [] \<or> targetId = [] \<Longrightarrow> createEdge st sourceId targetId ty = (st, Inl ValidationError)"
  by (auto simp: createEdge_def POST_edges_def)

lemma createEdge_nonempty:
  assumes "sourceId \<noteq> []" "targetId \<noteq> []"
  shows "createEdge st sourceId targetId ty =
     (case (findUnique_id (works st) sourceId, findUnique_id (works st) targetId) of
        (Some fromWork, Some toWork) \<Rightarrow>
          if status toWork = CANON then (st, Inl ImmutableTarget)
          else if findUnique_edge (workEdges st) sourceId targetId \<noteq> None
          then (st, Inl DuplicateEdge)
          else (st\<lparr>workEdges := workEdges st @
                     [\<lparr>edge_id = length (workEdges st), fromWorkId = sourceId,
                       toWorkId = targetId, edge_type = ty\<rparr>]\<rparr>,
                Inr \<lparr>edge_id = length (workEdges st), fromWorkId = sourceId,
                     toWorkId = targetId, edge_type = ty\<rparr>)
      | _ \<Rightarrow> (st, Inl NotFound))"
  using assms by (simp add: createEdge_def POST_edges_def Let_def split: option.split)

text \<open>
  Claim C6, as the handler has it. For identifiers that are not empty, createEdge stores and returns
  a new edge with the given source, target and type exactly when both identifiers are
  the ids of works, the target's tier is not CANON and the edge table has no edge for
  the ordered pair; otherwise it fails with NotFound when an identifier is not the id
  of a work, else with ImmutableTarget when the target's tier is CANON, else with
  DuplicateEdge; every failure returns the store as it was. An empty identifier is
  refused as a validation error before any lookup.
\<close>

theorem createEdge_outcome:
  assumes ne: "sourceId \<noteq> []" "targetId \<noteq> []"
  shows "((\<exists>e. createEdge st sourceId targetId ty = (st\<lparr>workEdges := workEdges st @ [e]\<rparr>, Inr e)
             \<and> fromWorkId e = sourceId \<and> toWorkId e = targetId \<and> edge_type e = ty)
          \<longleftrightarrow> (\<exists>a b. findUnique_id (works st) sourceId = Some a
                   \<and> findUnique_id (works st) targetId = Some b \<and> status b \<noteq> CANON
                   \<and> (\<forall>e\<in>set (workEdges st). \<not> (fromWorkId e = sourceId \<and> toWorkId e = targetId))))
       \<and> (sourceId \<notin> work_id ` set (works st) \<or> targetId \<notin> work_id ` set (works st)
            \<longrightarrow> createEdge st sourceId targetId ty = (st, Inl NotFound))
       \<and> (\<forall>a b. findUnique_id (works st) sourceId = Some a
                \<and> findUnique_id (works st) targetId = Some b \<and> status b = CANON
            \<longrightarrow> createEdge st sourceId targetId ty = (st, Inl ImmutableTarget))
       \<and> (\<forall>a b. findUnique_id (works st) sourceId = Some a
                \<and> findUnique_id (works st) targetId = Some b \<and> status b \<noteq> CANON
                \<and> (\<exists>e\<in>set (workEdges st). fromWorkId e = sourceId \<and> toWorkId e = targetId)
            \<longrightarrow> createEdge st sourceId targetId ty = (st, Inl DuplicateEdge))
       \<and> (\<forall>err. snd (createEdge st sourceId targetId ty) = Inl err
            \<longrightarrow> fst (createEdge st sourceId targetId ty) = st)"
proof (intro conjI)
  note eq = createEdge_nonempty [OF ne, of st ty]
  show "(\<exists>e. createEdge st sourceId targetId ty = (st\<lparr>workEdges := workEdges st @ [e]\<rparr>, Inr e)
             \<and> fromWorkId e = sourceId \<and> toWorkId e = targetId \<and> edge_type e = ty)
          \<longleftrightarrow> (\<exists>a b. findUnique_id (works st) sourceId = Some a
                   \<and> findUnique_id (works st) targetId = Some b \<and> status b \<noteq> CANON
                   \<and> (\<forall>e\<in>set (workEdges st). \<not> (fromWorkId e = sourceId \<and> toWorkId e = targetId)))"
    unfolding eq findUnique_edge_None_iff [symmetric]
    by (simp split: option.split)
  show "sourceId \<notin> work_id ` set (works st) \<or> targetId \<notin> work_id ` set (works st)
            \<longrightarrow> createEdge st sourceId targetId ty = (st, Inl NotFound)"
    unfolding eq findUnique_id_None_iff [symmetric]
    by (simp split: option.split)
  show "\<forall>a b. findUnique_id (works st) sourceId = Some a
                \<and> findUnique_id (works st) targetId = Some b \<and> status b = CANON
            \<longrightarrow> createEdge st sourceId targetId ty = (st, Inl ImmutableTarget)"
    unfolding eq by simp
  show "\<forall>a b. findUnique_id (works st) sourceId = Some a
                \<and> findUnique_id (works st) targetId = Some b \<and> status b \<noteq> CANON
                \<and> (\<exists>e\<in>set (workEdges st). fromWorkId e = sourceId \<and> toWorkId e = targetId)
            \<longrightarrow> createEdge st sourceId targetId ty = (st, Inl DuplicateEdge)"
    unfolding eq using findUnique_edge_None_iff [of "workEdges st" sourceId targetId]
    by simp
  show "\<forall>err. snd (createEdge st sourceId targetId ty) = Inl err
            \<longrightarrow> fst (createEdge st sourceId targetId ty) = st"
    unfolding eq by (simp split: option.split)
qed


theorem createEdge_outcome_witness:
  "''y'' \<noteq> [] \<and> ''x'' \<noteq> []
   \<and> (\<exists>e. createEdge store_XY ''y'' ''x'' FORK
            = (store_XY\<lparr>workEdges := workEdges store_XY @ [e]\<rparr>, Inr e)
          \<and> fromWorkId e = ''y'' \<and> toWorkId e = ''x'' \<and> edge_type e = FORK)
   \<and> createEdge store_XY ''x'' ''y'' FORK = (store_XY, Inl ImmutableTarget)
   \<and> createEdge store_XY ''x'' ''nobody'' FORK = (store_XY, Inl NotFound)"
proof -
  have x: "findUnique_id (works store_XY) ''x'' = Some work_X"
    and y: "findUnique_id (works store_XY) ''y'' = Some work_Y"
    and sx: "status work_X \<noteq> CANON" and sy: "status work_Y = CANON"
    and none: "''nobody'' \<notin> work_id ` set (works store_XY)"
    and noedge: "\<forall>e\<in>set (workEdges store_XY). \<not> (fromWorkId e = ''y'' \<and> toWorkId e = ''x'')"
    by (simp_all add: edge_example_defs findUnique_id_def)
  have ne: "''y'' \<noteq> []" "''x'' \<noteq> []" "''nobody'' \<noteq> []" by simp_all
  from createEdge_outcome [OF ne(1) ne(2), of store_XY FORK] x y sx noedge
  have a: "\<exists>e. createEdge store_XY ''y'' ''x'' FORK
            = (store_XY\<lparr>workEdges := workEdges store_XY @ [e]\<rparr>, Inr e)
          \<and> fromWorkId e = ''y'' \<and> toWorkId e = ''x'' \<and> edge_type e = FORK"
    by blast
  from createEdge_outcome [OF ne(2) ne(1), of store_XY FORK] x y sy
  have b: "createEdge store_XY ''x'' ''y'' FORK = (store_XY, Inl ImmutableTarget)"
    by blast
  from createEdge_outcome [OF ne(2) ne(3), of store_XY FORK] none
  have c: "createEdge store_XY ''x'' ''nobody'' FORK = (store_XY, Inl NotFound)"
    by blast
  from a b c ne show ?thesis by blast
qed

theorem createEdge_empty_id_counterexample:
  "findUnique_id (works store_XY) [] = None
   \<and> createEdge store_XY [] ''x'' FORK = (store_XY, Inl ValidationError)
   \<and> snd (createEdge store_XY [] ''x'' FORK) \<noteq> Inl NotFound"
  by (simp add: edge_example_defs findUnique_id_def createEdge_def POST_edges_def)


section \<open>Properties of the lineage graph builder\<close>

lemmas lineage_example_defs = work_A_def work_B_def work_C_def store_ABC_def graph_ABC_def
  work_R_def work_S_def store_cycle_def graph_cycle_def mk_work_def

lemmas lineage_defs = buildGraph_def bfs_loop.simps bfs_step_def bfs_init_def
  findFirst_id_or_slug_def findUnique_id_def parentEdges_def childEdges_def up_edge_def
  down_edge_def nodes_has_def nodes_set_def visitKey_def lineage_node_def lineage_edge_def
  List.map_filter_def Let_def

lemma finite_pending_keys: "finite (pending_keys st s)"
  by (simp add: pending_keys_def store_ids_def)

lemma length_map_filter_le: "length (List.map_filter f xs) \<le> length xs"
  by (simp add: List.map_filter_def)

lemma parentEdges_D:
  "ew \<in> set (parentEdges st w) \<Longrightarrow> fst ew \<in> set (workEdges st) \<and> toWorkId (fst ew) = w"
  by (auto simp: parentEdges_def List.map_filter_def split: if_splits)

lemma childEdges_D:
  "ew \<in> set (childEdges st w) \<Longrightarrow> fst ew \<in> set (workEdges st) \<and> fromWorkId (fst ew) = w"
  by (auto simp: childEdges_def List.map_filter_def split: if_splits)

lemma fold_up_edge_queue:
  "queue (fold (up_edge cd) ews s)
   = queue s @ map (\<lambda>ew. \<lparr>item_workId = fromWorkId (fst ew), direction = Up, currentDepth = cd + 1\<rparr>) ews"
  by (induction ews arbitrary: s) (simp_all add: up_edge_def Let_def)

lemma fold_down_edge_queue:
  "queue (fold (down_edge cd) ews s)
   = queue s @ map (\<lambda>ew. \<lparr>item_workId = toWorkId (fst ew), direction = Down, currentDepth = cd + 1\<rparr>) ews"
  by (induction ews arbitrary: s) (simp_all add: down_edge_def Let_def)

lemma fold_up_edge_visited: "visited (fold (up_edge cd) ews s) = visited s"
  by (induction ews arbitrary: s) (simp_all add: up_edge_def Let_def)

lemma fold_down_edge_visited: "visited (fold (down_edge cd) ews s) = visited s"
  by (induction ews arbitrary: s) (simp_all add: down_edge_def Let_def)

lemma bfs_step_Cons:
  assumes "queue s = item # rest"
  shows "bfs_step st d s =
     (if depth_reached (currentDepth item) d then s\<lparr>queue := rest\<rparr>
      else if visitKey (item_workId item) (direction item) \<in> visited s then s\<lparr>queue := rest\<rparr>
      else (case direction item of
              Up \<Rightarrow> fold (up_edge (currentDepth item)) (parentEdges st (item_workId item))
                     (s\<lparr>queue := rest,
                        visited := insert (visitKey (item_workId item) (direction item)) (visited s)\<rparr>)
            | Down \<Rightarrow> fold (down_edge (currentDepth item)) (childEdges st (item_workId item))
                     (s\<lparr>queue := rest,
                        visited := insert (visitKey (item_workId item) (direction item)) (visited s)\<rparr>)))"
  using assms by (simp add: bfs_step_def Let_def)

text \<open>What one iteration does to the queue and the visited set.\<close>

lemma bfs_step_cases:
  assumes "queue s = item # rest"
  shows "(visited (bfs_step st d s) = visited s \<and> queue (bfs_step st d s) = rest)
       \<or> (visitKey (item_workId item) (direction item) \<notin> visited s
          \<and> visited (bfs_step st d s) = insert (visitKey (item_workId item) (direction item)) (visited s)
          \<and> (\<exists>new. queue (bfs_step st d s) = rest @ new
                \<and> length new \<le> length (workEdges st)
                \<and> item_workId ` set new \<subseteq> store_ids st))"
proof (cases "depth_reached (currentDepth item) d
              \<or> visitKey (item_workId item) (direction item) \<in> visited s")
  case True
  with bfs_step_Cons [OF assms, of st d] show ?thesis by auto
next
  case False
  show ?thesis
  proof (cases "direction item")
    case Up
    let ?new = "map (\<lambda>ew. \<lparr>item_workId = fromWorkId (fst ew), direction = Up,
                            currentDepth = currentDepth item + 1\<rparr>)
                  (parentEdges st (item_workId item))"
    have "length ?new \<le> length (workEdges st)"
      by (simp add: parentEdges_def length_map_filter_le)
    moreover have "item_workId ` set ?new \<subseteq> store_ids st"
      using parentEdges_D by (force simp: store_ids_def)
    ultimately show ?thesis
      using bfs_step_Cons [OF assms, of st d] False Up
      by (simp add: fold_up_edge_queue fold_up_edge_visited)
  next
    case Down
    let ?new = "map (\<lambda>ew. \<lparr>item_workId = toWorkId (fst ew), direction = Down,
                            currentDepth = currentDepth item + 1\<rparr>)
                  (childEdges st (item_workId item))"
    have "length ?new \<le> length (workEdges st)"
      by (simp add: childEdges_def length_map_filter_le)
    moreover have "item_workId ` set ?new \<subseteq> store_ids st"
      using childEdges_D by (force simp: store_ids_def)
    ultimately show ?thesis
      using bfs_step_Cons [OF assms, of st d] False Down
      by (simp add: fold_down_edge_queue fold_down_edge_visited)
  qed
qed

lemma bfs_step_decreases:
  assumes "queue s \<noteq> []"
  shows "bfs_measure st (bfs_step st d s) < bfs_measure st s"
proof -
  from assms obtain item rest where q: "queue s = item # rest"
    by (cases "queue s") auto
  let ?s' = "bfs_step st d s"
  let ?k = "visitKey (item_workId item) (direction item)"
  let ?E = "length (workEdges st)"
  from bfs_step_cases [OF q, of st d] show ?thesis
  proof (elim disjE conjE exE)
    assume v: "visited ?s' = visited s" and r: "queue ?s' = rest"
    have "pending_keys st ?s' \<subseteq> pending_keys st s"
      unfolding pending_keys_def v r q by auto
    then have "card (pending_keys st ?s') \<le> card (pending_keys st s)"
      by (rule card_mono [OF finite_pending_keys])
    then have "card (pending_keys st ?s') * (?E + 1) \<le> card (pending_keys st s) * (?E + 1)"
      by (rule mult_le_mono1)
    then show ?thesis
      unfolding bfs_measure_def r q by simp
  next
    fix new
    assume nv: "?k \<notin> visited s"
      and v: "visited ?s' = insert ?k (visited s)"
      and r: "queue ?s' = rest @ new"
      and len: "length new \<le> ?E"
      and ids: "item_workId ` set new \<subseteq> store_ids st"
    have dir: "direction item \<in> {Up, Down}" by (cases "direction item") auto
    have kin: "?k \<in> pending_keys st s"
      unfolding pending_keys_def q using nv dir by force
    have sub: "pending_keys st ?s' \<subseteq> pending_keys st s - {?k}"
      unfolding pending_keys_def v r q using ids by auto
    have "card (pending_keys st ?s') \<le> card (pending_keys st s - {?k})"
      by (rule card_mono [OF _ sub]) (simp add: finite_pending_keys)
    also have "\<dots> = card (pending_keys st s) - 1"
      using kin by (simp add: finite_pending_keys)
    finally have c: "card (pending_keys st ?s') + 1 \<le> card (pending_keys st s)"
      using kin card_gt_0_iff [of "pending_keys st s"] finite_pending_keys [of st s] by fastforce
    have "(card (pending_keys st ?s') + 1) * (?E + 1) \<le> card (pending_keys st s) * (?E + 1)"
      using c by (rule mult_le_mono1)
    then show ?thesis
      unfolding bfs_measure_def r q using len by simp
  qed
qed

lemma bfs_loop_terminates: "\<exists>t. bfs_loop st d s = Some t \<and> queue t = []"
proof (induction "bfs_measure st s" arbitrary: s rule: less_induct)
  case less
  show ?case
  proof (cases "queue s = []")
    case True
    then show ?thesis by (subst bfs_loop.simps) simp
  next
    case False
    from less [OF bfs_step_decreases [OF False]]
    obtain t where "bfs_loop st d (bfs_step st d s) = Some t" "queue t = []" by blast
    with False show ?thesis by (subst bfs_loop.simps) simp
  qed
qed

lemma bfs_loop_invariant:
  assumes "bfs_loop st d s = Some t"
    and "P s"
    and "\<And>x. P x \<Longrightarrow> queue x \<noteq> [] \<Longrightarrow> P (bfs_step st d x)"
  shows "P t"
  using assms(1,2)
proof (induction "bfs_measure st s" arbitrary: s rule: less_induct)
  case less
  show ?case
  proof (cases "queue s = []")
    case True
    with less.prems show ?thesis by (subst (asm) bfs_loop.simps) simp
  next
    case False
    from less.prems(1) False have "bfs_loop st d (bfs_step st d s) = Some t"
      by (subst (asm) bfs_loop.simps) simp
    from less.hyps [OF bfs_step_decreases [OF False] this assms(3) [OF less.prems(2) False]]
    show ?thesis .
  qed
qed

text \<open>
  Claim C9. For every store, root argument and depth bound (a positive integer, any
  other integer, or NaN), buildGraph returns: the loop drains the queue from every
  state. Each iteration either only shortens the queue, or marks a visit key that was
  not marked before, so a work is expanded at most once per direction.
\<close>

theorem buildGraph_terminates:
  "(\<exists>r. buildGraph st i maxDepth = Some r)
   \<and> (\<forall>s. \<exists>t. bfs_loop st maxDepth s = Some t \<and> queue t = [])"
proof
  show "\<exists>r. buildGraph st i maxDepth = Some r"
  proof (cases "findFirst_id_or_slug (works st) i")
    case None
    then show ?thesis by (simp add: buildGraph_def)
  next
    case (Some w)
    from bfs_loop_terminates [of st maxDepth "bfs_init w"] Some
    show ?thesis by (auto simp: buildGraph_def)
  qed
  show "\<forall>s. \<exists>t. bfs_loop st maxDepth s = Some t \<and> queue t = []"
    using bfs_loop_terminates by blast
qed
lemma chain_append:
  "chain es k a b \<Longrightarrow> e \<in> set es \<Longrightarrow> fromWorkId e = b \<Longrightarrow> chain es (Suc k) a (toWorkId e)"
proof (induction k arbitrary: a)
  case 0
  then show ?case by auto
next
  case (Suc k)
  from Suc.prems(1) obtain e' where e': "e' \<in> set es" "fromWorkId e' = a"
    "chain es k (toWorkId e') b" by auto
  from Suc.IH [OF e'(3) Suc.prems(2,3)] e'(1,2) show ?case by auto
qed

lemma nodes_has_iff: "nodes_has ns k \<longleftrightarrow> k \<in> fst ` set ns"
  by (simp add: nodes_has_def map_of_eq_None_iff)

lemma nodes_set_new: "k \<notin> fst ` set ns \<Longrightarrow> nodes_set k v ns = ns @ [(k, v)]"
  unfolding nodes_set_def by (induction ns) auto

lemma nat_Suc_depth: "0 \<le> cd \<Longrightarrow> nat (cd + 1) = Suc (nat cd)"
  by simp

lemma up_edge_inv:
  assumes inv: "lineage_inv st r N s"
    and e: "fst ew \<in> set (workEdges st)" "toWorkId (fst ew) = w"
    and w: "chain (workEdges st) (nat cd) w r" "0 \<le> cd" "cd < N"
  shows "lineage_inv st r N (up_edge cd ew s)"
proof -
  let ?k = "fromWorkId (fst ew)"
  have ch: "chain (workEdges st) (nat (cd + 1)) ?k r"
    using e w(1,2) by (auto simp: nat_Suc_depth)
  have q: "queue_item_ok (workEdges st) r
             \<lparr>item_workId = ?k, direction = Up, currentDepth = cd + 1\<rparr>"
    using ch w(2) by (simp add: queue_item_ok_def)
  show ?thesis
  proof (cases "nodes_has (nodes s) ?k")
    case True
    with inv q show ?thesis
      by (auto simp: lineage_inv_def up_edge_def Let_def)
  next
    case False
    then have new: "?k \<notin> fst ` set (nodes s)" by (simp add: nodes_has_iff)
    let ?n = "(lineage_node (snd ew) (- (cd + 1)))\<lparr>node_id := ?k\<rparr>"
    have n: "node_ok (workEdges st) r N (?k, ?n)"
      using ch w(2,3) by (simp add: node_ok_def lineage_node_def add.commute)
    have nodes': "nodes (up_edge cd ew s) = nodes s @ [(?k, ?n)]"
      using False nodes_set_new [OF new] by (simp add: up_edge_def Let_def)
    from inv obtain n0 where n0: "map_of (nodes s) r = Some n0" "depth n0 = 0"
      by (auto simp: lineage_inv_def)
    have root: "map_of (nodes (up_edge cd ew s)) r = Some n0"
      unfolding nodes' using n0(1) by (simp add: map_add_Some_iff)
    have "\<forall>q\<in>set (queue (up_edge cd ew s)). queue_item_ok (workEdges st) r q"
      using inv q by (auto simp: lineage_inv_def up_edge_def Let_def)
    moreover have "\<forall>kn\<in>set (nodes (up_edge cd ew s)). node_ok (workEdges st) r N kn"
      unfolding nodes' using inv n by (auto simp: lineage_inv_def)
    moreover have "distinct (map fst (nodes (up_edge cd ew s)))"
      unfolding nodes' using inv new by (auto simp: lineage_inv_def)
    ultimately show ?thesis
      using root n0(2) unfolding lineage_inv_def by blast
  qed
qed

lemma down_edge_inv:
  assumes inv: "lineage_inv st r N s"
    and e: "fst ew \<in> set (workEdges st)" "fromWorkId (fst ew) = w"
    and w: "chain (workEdges st) (nat cd) r w" "0 \<le> cd" "cd < N"
  shows "lineage_inv st r N (down_edge cd ew s)"
proof -
  let ?k = "toWorkId (fst ew)"
  have ch: "chain (workEdges st) (nat (cd + 1)) r ?k"
    using chain_append [OF w(1) e(1) e(2)] w(2) by (simp add: nat_Suc_depth)
  have q: "queue_item_ok (workEdges st) r
             \<lparr>item_workId = ?k, direction = Down, currentDepth = cd + 1\<rparr>"
    using ch w(2) by (simp add: queue_item_ok_def)
  show ?thesis
  proof (cases "nodes_has (nodes s) ?k")
    case True
    with inv q show ?thesis
      by (auto simp: lineage_inv_def down_edge_def Let_def)
  next
    case False
    then have new: "?k \<notin> fst ` set (nodes s)" by (simp add: nodes_has_iff)
    let ?n = "(lineage_node (snd ew) (cd + 1))\<lparr>node_id := ?k\<rparr>"
    have n: "node_ok (workEdges st) r N (?k, ?n)"
      using ch w(2,3) by (simp add: node_ok_def lineage_node_def add.commute)
    have nodes': "nodes (down_edge cd ew s) = nodes s @ [(?k, ?n)]"
      using False nodes_set_new [OF new] by (simp add: down_edge_def Let_def)
    from inv obtain n0 where n0: "map_of (nodes s) r = Some n0" "depth n0 = 0"
      by (auto simp: lineage_inv_def)
    have root: "map_of (nodes (down_edge cd ew s)) r = Some n0"
      unfolding nodes' using n0(1) by (simp add: map_add_Some_iff)
    have "\<forall>q\<in>set (queue (down_edge cd ew s)). queue_item_ok (workEdges st) r q"
      using inv q by (auto simp: lineage_inv_def down_edge_def Let_def)
    moreover have "\<forall>kn\<in>set (nodes (down_edge cd ew s)). node_ok (workEdges st) r N kn"
      unfolding nodes' using inv n by (auto simp: lineage_inv_def)
    moreover have "distinct (map fst (nodes (down_edge cd ew s)))"
      unfolding nodes' using inv new by (auto simp: lineage_inv_def)
    ultimately show ?thesis
      using root n0(2) unfolding lineage_inv_def by blast
  qed
qed

lemma fold_up_edge_inv:
  assumes "\<forall>ew\<in>set ews. fst ew \<in> set (workEdges st) \<and> toWorkId (fst ew) = w"
    and "chain (workEdges st) (nat cd) w r" "0 \<le> cd" "cd < N"
    and "lineage_inv st r N s"
  shows "lineage_inv st r N (fold (up_edge cd) ews s)"
  using assms(1,5)
proof (induction ews arbitrary: s)
  case Nil
  then show ?case by simp
next
  case (Cons ew ews)
  from Cons.prems have "lineage_inv st r N (up_edge cd ew s)"
    using up_edge_inv [OF _ _ _ assms(2,3,4)] by simp
  with Cons show ?case by simp
qed

lemma fold_down_edge_inv:
  assumes "\<forall>ew\<in>set ews. fst ew \<in> set (workEdges st) \<and> fromWorkId (fst ew) = w"
    and "chain (workEdges st) (nat cd) r w" "0 \<le> cd" "cd < N"
    and "lineage_inv st r N s"
  shows "lineage_inv st r N (fold (down_edge cd) ews s)"
  using assms(1,5)
proof (induction ews arbitrary: s)
  case Nil
  then show ?case by simp
next
  case (Cons ew ews)
  from Cons.prems have "lineage_inv st r N (down_edge cd ew s)"
    using down_edge_inv [OF _ _ _ assms(2,3,4)] by simp
  with Cons show ?case by simp
qed

lemma lineage_inv_drop:
  "lineage_inv st r N s \<Longrightarrow> queue s = item # rest \<Longrightarrow> lineage_inv st r N (s\<lparr>queue := rest, visited := V\<rparr>)"
  unfolding lineage_inv_def by auto

lemma lineage_inv_drop':
  "lineage_inv st r N s \<Longrightarrow> queue s = item # rest \<Longrightarrow> lineage_inv st r N (s\<lparr>queue := rest\<rparr>)"
  unfolding lineage_inv_def by auto

lemma bfs_step_inv:
  assumes inv: "lineage_inv st r N s" and ne: "queue s \<noteq> []"
  shows "lineage_inv st r N (bfs_step st (Num N) s)"
proof -
  from ne obtain item rest where q: "queue s = item # rest"
    by (cases "queue s") auto
  from inv q have item: "queue_item_ok (workEdges st) r item"
    by (simp add: lineage_inv_def)
  show ?thesis
  proof (cases "depth_reached (currentDepth item) (Num N)
                \<or> visitKey (item_workId item) (direction item) \<in> visited s")
    case True
    with bfs_step_Cons [OF q, of st "Num N"] lineage_inv_drop' [OF inv q]
    show ?thesis by auto
  next
    case False
    then have lt: "currentDepth item < N" by simp
    from item have ge: "0 \<le> currentDepth item" by (simp add: queue_item_ok_def)
    let ?s2 = "s\<lparr>queue := rest,
                 visited := insert (visitKey (item_workId item) (direction item)) (visited s)\<rparr>"
    have inv2: "lineage_inv st r N ?s2" by (rule lineage_inv_drop [OF inv q])
    show ?thesis
    proof (cases "direction item")
      case Up
      with item have ch: "chain (workEdges st) (nat (currentDepth item)) (item_workId item) r"
        by (simp add: queue_item_ok_def)
      have "lineage_inv st r N
              (fold (up_edge (currentDepth item)) (parentEdges st (item_workId item)) ?s2)"
        by (rule fold_up_edge_inv [OF _ ch ge lt inv2]) (simp add: parentEdges_D)
      with bfs_step_Cons [OF q, of st "Num N"] False Up show ?thesis by simp
    next
      case Down
      with item have ch: "chain (workEdges st) (nat (currentDepth item)) r (item_workId item)"
        by (simp add: queue_item_ok_def)
      have "lineage_inv st r N
              (fold (down_edge (currentDepth item)) (childEdges st (item_workId item)) ?s2)"
        by (rule fold_down_edge_inv [OF _ ch ge lt inv2]) (simp add: childEdges_D)
      with bfs_step_Cons [OF q, of st "Num N"] False Down show ?thesis by simp
    qed
  qed
qed

lemma bfs_init_inv: "0 \<le> N \<Longrightarrow> lineage_inv st (work_id w) N (bfs_init w)"
  by (simp add: lineage_inv_def bfs_init_def nodes_set_def queue_item_ok_def node_ok_def
      lineage_node_def)


lemma up_edge_nodes_keep:
  "map_of (nodes s) k = Some v \<Longrightarrow> map_of (nodes (up_edge cd ew s)) k = Some v"
  by (auto simp: up_edge_def Let_def nodes_has_def nodes_set_def update_conv')

lemma down_edge_nodes_keep:
  "map_of (nodes s) k = Some v \<Longrightarrow> map_of (nodes (down_edge cd ew s)) k = Some v"
  by (auto simp: down_edge_def Let_def nodes_has_def nodes_set_def update_conv')

lemma fold_up_edge_nodes_keep:
  "map_of (nodes s) k = Some v \<Longrightarrow> map_of (nodes (fold (up_edge cd) ews s)) k = Some v"
  by (induction ews arbitrary: s) (simp_all add: up_edge_nodes_keep)

lemma fold_down_edge_nodes_keep:
  "map_of (nodes s) k = Some v \<Longrightarrow> map_of (nodes (fold (down_edge cd) ews s)) k = Some v"
  by (induction ews arbitrary: s) (simp_all add: down_edge_nodes_keep)

lemma bfs_step_nodes_keep:
  assumes "map_of (nodes s) k = Some v"
  shows "map_of (nodes (bfs_step st d s)) k = Some v"
proof (cases "queue s")
  case Nil
  with assms show ?thesis by (simp add: bfs_step_def)
next
  case (Cons item rest)
  show ?thesis
    unfolding bfs_step_Cons [OF Cons]
    using assms
    by (auto split: Direction.split intro!: fold_up_edge_nodes_keep fold_down_edge_nodes_keep)
qed

lemma bfs_loop_nodes_keep:
  assumes "bfs_loop st d s = Some t" and "map_of (nodes s) k = Some v"
  shows "map_of (nodes t) k = Some v"
  using assms(1,2)
  by (rule bfs_loop_invariant [where P = "\<lambda>x. map_of (nodes x) k = Some v"])
     (rule bfs_step_nodes_keep)

text \<open>
  Claim C8. For a positive bound \<open>N\<close>, every node that buildGraph returns has a depth of
  absolute value at most \<open>N\<close>; the depth is zero exactly for the root, a node of negative
  depth is an ancestor of the root at that distance, a node of positive depth a
  descendant at that distance; the root is among the nodes and no work appears twice.
  An entry of the node map is never changed once it is set: whatever the map holds for
  a key in some state of the loop, it holds in the final state.
\<close>

theorem buildGraph_depths:
  assumes pos: "0 < N"
    and fnd: "findFirst_id_or_slug (works st) i = Some root"
    and res: "buildGraph st i (Num N) = Some (Inr g)"
  shows "(\<forall>n\<in>set (graph_nodes g).
            \<bar>depth n\<bar> \<le> N
          \<and> (depth n = 0 \<longleftrightarrow> node_id n = work_id root)
          \<and> (depth n < 0 \<longrightarrow>
               chain (workEdges st) (nat (- depth n)) (node_id n) (work_id root))
          \<and> (0 < depth n \<longrightarrow>
               chain (workEdges st) (nat (depth n)) (work_id root) (node_id n)))
       \<and> (\<exists>n\<in>set (graph_nodes g). node_id n = work_id root)
       \<and> distinct (map node_id (graph_nodes g))
       \<and> (\<forall>s t k v. bfs_loop st (Num N) s = Some t \<longrightarrow> map_of (nodes s) k = Some v
                     \<longrightarrow> map_of (nodes t) k = Some v)"
proof -
  let ?r = "work_id root"
  from res fnd obtain t where
    loop: "bfs_loop st (Num N) (bfs_init root) = Some t"
    and g: "g = \<lparr>graph_nodes = map snd (nodes t), graph_edges = edges t\<rparr>"
    by (auto simp: buildGraph_def)
  from pos have "lineage_inv st ?r N (bfs_init root)"
    by (simp add: bfs_init_inv)
  with loop have inv: "lineage_inv st ?r N t"
    by (rule bfs_loop_invariant) (rule bfs_step_inv)
  from inv have ok: "\<And>kn. kn \<in> set (nodes t) \<Longrightarrow> node_ok (workEdges st) ?r N kn"
    and dist: "distinct (map fst (nodes t))"
    by (auto simp: lineage_inv_def)
  from inv obtain n0 where n0: "map_of (nodes t) ?r = Some n0" "depth n0 = 0"
    by (auto simp: lineage_inv_def)
  have ids: "map node_id (map snd (nodes t)) = map fst (nodes t)"
    using ok by (auto simp: node_ok_def)
  have a: "\<forall>n\<in>set (graph_nodes g).
            \<bar>depth n\<bar> \<le> N
          \<and> (depth n = 0 \<longleftrightarrow> node_id n = ?r)
          \<and> (depth n < 0 \<longrightarrow> chain (workEdges st) (nat (- depth n)) (node_id n) ?r)
          \<and> (0 < depth n \<longrightarrow> chain (workEdges st) (nat (depth n)) ?r (node_id n))"
  proof
    fix n assume "n \<in> set (graph_nodes g)"
    then obtain k where kn: "(k, n) \<in> set (nodes t)" by (auto simp: g)
    from ok [OF kn] have nk: "node_id n = k" "\<bar>depth n\<bar> \<le> N" "depth n = 0 \<longrightarrow> k = ?r"
      "depth n < 0 \<longrightarrow> chain (workEdges st) (nat (- depth n)) k ?r"
      "0 < depth n \<longrightarrow> chain (workEdges st) (nat (depth n)) ?r k"
      by (simp_all add: node_ok_def)
    have "depth n = 0" if "node_id n = ?r"
    proof -
      from that nk(1) kn have "(?r, n) \<in> set (nodes t)" by simp
      with dist have "map_of (nodes t) ?r = Some n" by simp
      with n0 show ?thesis by simp
    qed
    with nk show "\<bar>depth n\<bar> \<le> N
          \<and> (depth n = 0 \<longleftrightarrow> node_id n = ?r)
          \<and> (depth n < 0 \<longrightarrow> chain (workEdges st) (nat (- depth n)) (node_id n) ?r)
          \<and> (0 < depth n \<longrightarrow> chain (workEdges st) (nat (depth n)) ?r (node_id n))"
      by auto
  qed
  have b: "\<exists>n\<in>set (graph_nodes g). node_id n = ?r"
  proof -
    from n0(1) have in0: "(?r, n0) \<in> set (nodes t)" by (rule map_of_SomeD)
    from ok [OF in0] have "node_id n0 = ?r" by (simp add: node_ok_def)
    moreover from in0 have "n0 \<in> set (graph_nodes g)" by (force simp: g)
    ultimately show ?thesis by blast
  qed
  have c: "distinct (map node_id (graph_nodes g))"
    unfolding g using dist ids by (simp del: map_map)
  have d: "\<forall>s t k v. bfs_loop st (Num N) s = Some t \<longrightarrow> map_of (nodes s) k = Some v
                     \<longrightarrow> map_of (nodes t) k = Some v"
    using bfs_loop_nodes_keep by blast
  from a b c d show ?thesis by blast
qed
theorem buildGraph_depths_witness:
  "(0::int) < 2
   \<and> findFirst_id_or_slug (works store_ABC) ''b'' = Some work_B
   \<and> buildGraph store_ABC ''b'' (Num 2) = Some (Inr graph_ABC)
   \<and> map (\<lambda>n. (node_id n, depth n)) (graph_nodes graph_ABC)
       = [(''b'', 0), (''a'', - 1), (''c'', 1)]
   \<and> \<bar>depth (lineage_node work_A (- 1))\<bar> \<le> 2
   \<and> chain (workEdges store_ABC) 1 ''a'' ''b''
   \<and> chain (workEdges store_ABC) 1 ''b'' ''c''"
proof -
  have h1: "(0::int) < 2" by simp
  have h2: "findFirst_id_or_slug (works store_ABC) ''b'' = Some work_B"
    by (simp add: lineage_example_defs findFirst_id_or_slug_def)
  have h3: "buildGraph store_ABC ''b'' (Num 2) = Some (Inr graph_ABC)"
    by (simp add: lineage_example_defs lineage_defs)
  have h4: "map (\<lambda>n. (node_id n, depth n)) (graph_nodes graph_ABC)
            = [(''b'', 0), (''a'', - 1), (''c'', 1)]"
    by (simp add: lineage_example_defs lineage_node_def)
  have a: "lineage_node work_A (- 1) \<in> set (graph_nodes graph_ABC)"
    and c: "lineage_node work_C 1 \<in> set (graph_nodes graph_ABC)"
    by (simp_all add: graph_ABC_def)
  have ids: "node_id (lineage_node work_A (- 1)) = ''a''" "node_id (lineage_node work_C 1) = ''c''"
    "work_id work_B = ''b''"
    "depth (lineage_node work_A (- 1)) = - 1" "depth (lineage_node work_C 1) = 1"
    by (simp_all add: lineage_example_defs lineage_node_def)
  note inst = buildGraph_depths [OF h1 h2 h3]
  from inst a have "\<bar>depth (lineage_node work_A (- 1))\<bar> \<le> 2
      \<and> (depth (lineage_node work_A (- 1)) < 0 \<longrightarrow>
           chain (workEdges store_ABC) (nat (- depth (lineage_node work_A (- 1))))
             (node_id (lineage_node work_A (- 1))) (work_id work_B))"
    by blast
  then have ra: "\<bar>depth (lineage_node work_A (- 1))\<bar> \<le> 2"
    "chain (workEdges store_ABC) 1 ''a'' ''b''"
    by (simp_all add: ids)
  from inst c have "0 < depth (lineage_node work_C 1) \<longrightarrow>
           chain (workEdges store_ABC) (nat (depth (lineage_node work_C 1)))
             (work_id work_B) (node_id (lineage_node work_C 1))"
    by blast
  then have rc: "chain (workEdges store_ABC) 1 ''b'' ''c''"
    by (simp add: ids)
  from h1 h2 h3 h4 ra rc show ?thesis by blast
qed

text \<open>
  Claim C7. The edge table holds one edge from \<open>r\<close> to \<open>s\<close> and one from \<open>s\<close> to \<open>r\<close>. The
  upward step from \<open>r\<close> records the edge from \<open>s\<close>, the downward step from \<open>r\<close> records the
  edge to \<open>s\<close>, and the upward step from \<open>s\<close>, which makes no check, records the edge from
  \<open>r\<close> to \<open>s\<close> a second time.
\<close>

theorem buildGraph_records_cycle_edge_twice:
  "distinct (map (\<lambda>e. (fromWorkId e, toWorkId e)) (workEdges store_cycle))
   \<and> buildGraph store_cycle ''r'' (Num 2) = Some (Inr graph_cycle)
   \<and> \<not> distinct (map (\<lambda>e. (source e, target e)) (graph_edges graph_cycle))"
  by (simp add: lineage_example_defs lineage_defs)


section \<open>Resolution of the work argument\<close>

lemma find_the_only:
  "w \<in> set ws \<Longrightarrow> P w \<Longrightarrow> \<forall>x\<in>set ws. P x \<longrightarrow> x = w \<Longrightarrow> find P ws = Some w"
proof (induction ws)
  case Nil
  then show ?case by simp
next
  case (Cons a ws)
  show ?case
  proof (cases "P a")
    case True
    with Cons.prems(3) have "a = w" by simp
    with True show ?thesis by simp
  next
    case False
    with Cons.prems have "w \<in> set ws" by auto
    from Cons.IH [OF this Cons.prems(2)] Cons.prems(3) False show ?thesis by simp
  qed
qed

lemma distinct_map_eq:
  "distinct (map f xs) \<Longrightarrow> x \<in> set xs \<Longrightarrow> y \<in> set xs \<Longrightarrow> f x = f y \<Longrightarrow> x = y"
  by (meson distinct_map inj_on_def)

lemma findFirst_by_id:
  assumes "store_keys_ok ws" and "w \<in> set ws"
  shows "findFirst_id_or_slug ws (work_id w) = Some w"
  unfolding findFirst_id_or_slug_def
proof (rule find_the_only [OF assms(2)], simp, intro ballI impI)
  fix x assume x: "x \<in> set ws" and d: "work_id x = work_id w \<or> slug x = work_id w"
  from d show "x = w"
  proof
    assume "work_id x = work_id w"
    with assms x show ?thesis
      unfolding store_keys_ok_def by (blast intro: distinct_map_eq)
  next
    assume "slug x = work_id w"
    with assms x show ?thesis
      unfolding store_keys_ok_def by blast
  qed
qed

lemma findFirst_by_slug:
  assumes "store_keys_ok ws" and "w \<in> set ws"
  shows "findFirst_id_or_slug ws (slug w) = Some w"
  unfolding findFirst_id_or_slug_def
proof (rule find_the_only [OF assms(2)], simp, intro ballI impI)
  fix x assume x: "x \<in> set ws" and d: "work_id x = slug w \<or> slug x = slug w"
  from d show "x = w"
  proof
    assume "work_id x = slug w"
    with assms x show ?thesis
      unfolding store_keys_ok_def by metis
  next
    assume "slug x = slug w"
    with assms x show ?thesis
      unfolding store_keys_ok_def by (blast intro: distinct_map_eq)
  qed
qed

lemma findFirst_None_iff:
  "findFirst_id_or_slug ws x = None \<longleftrightarrow> (\<forall>r\<in>set ws. work_id r \<noteq> x \<and> slug r \<noteq> x)"
  by (auto simp: findFirst_id_or_slug_def find_None_iff)

lemma promote_depends_on_lookup:
  "findFirst_id_or_slug (works st) x = findFirst_id_or_slug (works st) y
   \<Longrightarrow> promote sto now u st x body = promote sto now u st y body"
  by (simp add: promote_def split: option.split)

lemma buildGraph_depends_on_lookup:
  "findFirst_id_or_slug (works st) x = findFirst_id_or_slug (works st) y
   \<Longrightarrow> buildGraph st x d = buildGraph st y d"
  by (simp add: buildGraph_def)

lemma createEdge_unresolved:
  assumes "src \<noteq> []" "tgt \<noteq> []"
    and "findUnique_id (works st) src = None \<or> findUnique_id (works st) tgt = None"
  shows "createEdge st src tgt ty = (st, Inl NotFound)"
  using assms(3) by (auto simp: createEdge_nonempty [OF assms(1,2)] split: option.split)

text \<open>
  Claim C10, as the handlers have it. In a store whose identifiers and slugs are unique and where no
  slug is the identifier of another work, promote and buildGraph called with the slug
  of an existing work return what they return for its id. An argument that is neither
  an id nor a slug makes buildGraph fail with NotFound, and promote too when the
  justification passes validation. createEdge looks its arguments up by id only: an
  argument that is not the id of a work is not found, whether or not it is a slug.
\<close>

theorem resolve_by_id_or_slug:
  assumes keys: "store_keys_ok (works st)" and w: "w \<in> set (works st)"
  shows "promote sto now u st (slug w) body = promote sto now u st (work_id w) body
       \<and> buildGraph st (slug w) d = buildGraph st (work_id w) d
       \<and> (\<forall>x. (\<forall>r\<in>set (works st). work_id r \<noteq> x \<and> slug r \<noteq> x)
              \<longrightarrow> buildGraph st x d = Some (Inl NotFound)
                \<and> (\<forall>j. justification_ok j
                       \<longrightarrow> promote sto now u st x (Some j) = (st, Inl NotFound)))
       \<and> (\<forall>src tgt ty. src \<noteq> [] \<and> tgt \<noteq> []
              \<and> (src \<notin> work_id ` set (works st) \<or> tgt \<notin> work_id ` set (works st))
              \<longrightarrow> createEdge st src tgt ty = (st, Inl NotFound))"
proof (intro conjI)
  have same: "findFirst_id_or_slug (works st) (slug w) = findFirst_id_or_slug (works st) (work_id w)"
    by (simp add: findFirst_by_id [OF keys w] findFirst_by_slug [OF keys w])
  show "promote sto now u st (slug w) body = promote sto now u st (work_id w) body"
    by (rule promote_depends_on_lookup [OF same])
  show "buildGraph st (slug w) d = buildGraph st (work_id w) d"
    by (rule buildGraph_depends_on_lookup [OF same])
  show "\<forall>x. (\<forall>r\<in>set (works st). work_id r \<noteq> x \<and> slug r \<noteq> x)
              \<longrightarrow> buildGraph st x d = Some (Inl NotFound)
                \<and> (\<forall>j. justification_ok j
                       \<longrightarrow> promote sto now u st x (Some j) = (st, Inl NotFound))"
    unfolding findFirst_None_iff [symmetric]
    by (simp add: buildGraph_def promote_def)
  show "\<forall>src tgt ty. src \<noteq> [] \<and> tgt \<noteq> []
              \<and> (src \<notin> work_id ` set (works st) \<or> tgt \<notin> work_id ` set (works st))
              \<longrightarrow> createEdge st src tgt ty = (st, Inl NotFound)"
    using createEdge_unresolved by (simp add: findUnique_id_None_iff)
qed
theorem resolve_by_id_or_slug_witness:
  "store_keys_ok (works store_ABC) \<and> work_B \<in> set (works store_ABC)
   \<and> promote Healthy 1000 curator1 store_ABC ''beta-p0q1'' (Some justification1)
     = promote Healthy 1000 curator1 store_ABC ''b'' (Some justification1)
   \<and> buildGraph store_ABC ''beta-p0q1'' (Num 2) = buildGraph store_ABC ''b'' (Num 2)
   \<and> buildGraph store_ABC ''omega'' (Num 2) = Some (Inl NotFound)
   \<and> promote Healthy 1000 curator1 store_ABC ''omega'' (Some justification1) = (store_ABC, Inl NotFound)
   \<and> createEdge store_ABC ''alpha-k3x9'' ''c'' FORK = (store_ABC, Inl NotFound)"
proof -
  have h1: "store_keys_ok (works store_ABC)"
    by (simp add: store_keys_ok_def lineage_example_defs)
  have h2: "work_B \<in> set (works store_ABC)"
    by (simp add: store_ABC_def)
  have keys: "slug work_B = ''beta-p0q1''" "work_id work_B = ''b''"
    by (simp_all add: work_B_def mk_work_def)
  have miss: "\<forall>r\<in>set (works store_ABC). work_id r \<noteq> ''omega'' \<and> slug r \<noteq> ''omega''"
    by (simp add: lineage_example_defs)
  have noid: "''alpha-k3x9'' \<notin> work_id ` set (works store_ABC)"
    by (simp add: lineage_example_defs)
  have ok: "justification_ok justification1"
    by (simp add: justification1_def trim_def is_space_def)
  note inst = resolve_by_id_or_slug [OF h1 h2, of Healthy 1000 curator1 "Some justification1" "Num 2"]
  from inst have a: "promote Healthy 1000 curator1 store_ABC ''beta-p0q1'' (Some justification1)
     = promote Healthy 1000 curator1 store_ABC ''b'' (Some justification1)"
    and b: "buildGraph store_ABC ''beta-p0q1'' (Num 2) = buildGraph store_ABC ''b'' (Num 2)"
    unfolding keys by blast+
  from inst miss ok have c: "buildGraph store_ABC ''omega'' (Num 2) = Some (Inl NotFound)"
    and d: "promote Healthy 1000 curator1 store_ABC ''omega'' (Some justification1) = (store_ABC, Inl NotFound)"
    by blast+
  from inst noid have e: "createEdge store_ABC ''alpha-k3x9'' ''c'' FORK = (store_ABC, Inl NotFound)"
    by (metis list.discI)
  from h1 h2 a b c d e show ?thesis by blast
qed

theorem resolve_unmatched_short_justification_counterexample:
  "findFirst_id_or_slug (works store_ABC) ''omega'' = None
   \<and> snd (promote Healthy 1000 curator1 store_ABC ''omega'' (Some (JStr ''too brief''))) = Inl ValidationError
   \<and> snd (promote Healthy 1000 curator1 store_ABC ''omega'' (Some (JStr ''too brief''))) \<noteq> Inl NotFound"
  by (simp add: promote_def lineage_example_defs findFirst_id_or_slug_def trim_def is_space_def)

section \<open>Tier order and the CANON lock\<close>

text \<open>
  The tier of a work changes only in promote, by one step of the table; the update
  handler refuses a CANON work and never writes the tier.
\<close>

lemmas provenance_example_defs = example_parseDate_def ctad_W_def ctad_W_after_def
  store_canon_ctad_def provenance_request_def work_W_canon_def work_W_def mk_work_def
  event1_def event2_def

lemma PATCH_canon_refused:
  "findFirst_id_or_slug (works st) i = Some w \<Longrightarrow> status w = CANON
   \<Longrightarrow> PATCH st i body = (st, Inl CanonLocked)"
  by (simp add: PATCH_def)

lemma title_data_status:
  assumes "title_data v = Some f"
  shows "status (f w) = status w"
proof (cases v)
  case (JStr s)
  with assms have "f = (if s \<noteq> [] then (\<lambda>w. w\<lparr>title := trim s\<rparr>) else (\<lambda>w. w))"
    by simp
  then show ?thesis by simp
next
  case JUndefined
  with assms have "f = (\<lambda>w. w)" by simp
  then show ?thesis by simp
next
  case JNull
  with assms have "f = (\<lambda>w. w)" by simp
  then show ?thesis by simp
next
  case (JBool b)
  with assms have "f = (\<lambda>w. w)" by (simp split: if_splits)
  then show ?thesis by simp
next
  case (JNum n)
  with assms have "f = (\<lambda>w. w)" by (simp split: if_splits)
  then show ?thesis by simp
next
  case JOther
  with assms show ?thesis by simp
qed

lemma description_data_status: "description_data v = Some f \<Longrightarrow> status (f w) = status w"
  by (cases v) auto

lemma audioUrl_data_status: "audioUrl_data v = Some f \<Longrightarrow> status (f w) = status w"
  by (cases v) auto

lemma promote_data_tier:
  "VALID_PROMOTIONS (status w) = Some nxt \<Longrightarrow> status (promote_data now u nxt w) = nxt"
  by (simp add: promote_data_def)

lemma VALID_PROMOTIONS_forward:
  "VALID_PROMOTIONS a = Some b \<Longrightarrow> (a = JAM \<and> b = PLATE) \<or> (a = PLATE \<and> b = CANON)"
  by (cases a) auto
lemma PATCH_keeps_status:
  "map status (works (fst (PATCH st i body))) = map status (works st)"
  unfolding PATCH_def
  by (auto simp: title_data_status description_data_status audioUrl_data_status
        work_update_def split: option.split)

lemma promote_tier_forward:
  assumes ids: "distinct (map work_id (works st))"
  shows "list_all2 (\<lambda>a b. status b = status a \<or> VALID_PROMOTIONS (status a) = Some (status b))
           (works st) (works (fst (promote sto now u st i body)))"
proof -
  from promote_outcome [of sto now u st i body]
  consider "fst (promote sto now u st i body) = st"
    | w nextStatus where "VALID_PROMOTIONS (status w) = Some nextStatus"
        "works (fst (promote sto now u st i body))
         = map (\<lambda>r. if work_id r = work_id w then promote_data now u nextStatus r else r) (works st)"
        "findFirst_id_or_slug (works st) i = Some w"
    by auto
  then show ?thesis
  proof cases
    case 1
    then show ?thesis by (simp add: list_all2_same)
  next
    case 2
    from 2(3) have win: "w \<in> set (works st)"
      unfolding findFirst_id_or_slug_def by (auto dest: find_Some_D)
    have "status (promote_data now u nextStatus r) = status r
          \<or> VALID_PROMOTIONS (status r) = Some (status (promote_data now u nextStatus r))"
      if "r \<in> set (works st)" "work_id r = work_id w" for r
    proof -
      from distinct_map_eq [OF ids that(1) win that(2)] have "r = w" .
      with 2(1) show ?thesis by (simp add: promote_data_tier)
    qed
    then show ?thesis
      unfolding 2(2) list_all2_map2 list_all2_same by simp
  qed
qed
text \<open>
  Claim C1. The provenance handler looks the work up and writes its CTAD document
  without looking at the tier: on a CANON work that has a CTAD document and no
  provenance row yet, the call succeeds and the work's metadata column is rewritten.
\<close>

theorem provenance_rewrites_canon_work:
  "findUnique_id (works store_canon_ctad) ''w1'' = Some (work_W_canon\<lparr>ctadMetadata := Some ctad_W\<rparr>)
   \<and> status (work_W_canon\<lparr>ctadMetadata := Some ctad_W\<rparr>) = CANON
   \<and> snd (POST_provenance example_parseDate 3000 store_canon_ctad ''w1'' (Some provenance_request))
     = Inr 0
   \<and> works (fst (POST_provenance example_parseDate 3000 store_canon_ctad ''w1''
                    (Some provenance_request)))
     = [work_W_canon\<lparr>ctadMetadata := Some ctad_W_after\<rparr>]
   \<and> ctad_W_after \<noteq> ctad_W"
  by (simp add: provenance_example_defs POST_provenance_def findUnique_id_def work_update_def
      ctad_with_provenance_def or_null_def Let_def)


end
